theory Spec2Isabelle
  imports Complex_Main
begin

section \<open>Two-step MIR cut generator (CglTwomir.cpp): data model\<close>

text \<open>
  The C type \<open>double\<close> is modelled in two ways. The MIR builder, the nicefy pass, the
  violation test, the cut list and the generator object are written over \<open>real\<close>: their
  statements are about the arithmetic the code writes down, carried out exactly. The
  functions whose answer is decided by comparing rounded results (the desirability filter,
  the admissibility test of a split point, the two-step builder, the transform and its
  inverse) are written over the operations of an arbitrary machine arithmetic (see the
  section on machine arithmetic), of which real arithmetic and IEEE double arithmetic are
  two instances. The C functions \<open>floor\<close> and \<open>ceil\<close> return a double, so on the reals they are
  \<open>of_int \<circ> floor\<close> and \<open>of_int \<circ> ceiling\<close>.
\<close>

definition c_floor :: "real \<Rightarrow> real" where
  "c_floor v = of_int \<lfloor>v\<rfloor>"

definition c_ceil :: "real \<Rightarrow> real" where
  "c_ceil v = of_int \<lceil>v\<rceil>"

text \<open>
  How a call can end other than by returning 0:
  \<^item> \<open>Rval r\<close>: the function returned the nonzero code \<open>r\<close> (the macro \<open>DGG_TEST(A, B, msg)\<close>
    returns \<open>B\<close> when \<open>A\<close> holds; callers test it with \<open>DGG_CHECKRVAL\<close>);
  \<^item> \<open>Exit r\<close>: the macro \<open>DGG_IF_EXIT(A, B, msg)\<close> ended the process with status \<open>B\<close>;
  \<^item> \<open>OutOfBounds\<close>: an array was read or written outside its allocation;
  \<^item> \<open>NullPointer\<close>: a null pointer was dereferenced;
  \<^item> \<open>InvalidFree\<close>: \<open>free\<close> was called on storage that is not allocated.
  The last three are undefined behaviour in C; the model stops there.
\<close>

datatype error = Rval int | Exit int | OutOfBounds | NullPointer | InvalidFree

text \<open>\<open>DGG_constraint_t\<close>: the arrays \<open>coeff\<close> and \<open>index\<close> are the allocated
  blocks, of which the first \<open>nz\<close> slots are in use. The record is polymorphic in the type
  \<open>'d\<close> that stands for \<open>double\<close>; \<open>DGG_constraint_t\<close> is its instance for exact (real)
  arithmetic.\<close>

record 'd DGG_constraint =
  nz :: int
  max_nz :: int
  coeff :: "'d list"
  index :: "int list"
  rhs :: 'd
  sense :: char

type_synonym DGG_constraint_t = "real DGG_constraint"

text \<open>
  Modelled from the spec: \<open>DGG_data_t\<close> and the macro \<open>DGG_isInteger(data, idx)\<close> are
  declared in CglTwomir.hpp, which is not among the sources. The spec's Snapshot holds
  \<open>ncol\<close>, \<open>nrow\<close>, the per-unified-index arrays \<open>lb\<close>, \<open>ub\<close>, \<open>x\<close>, \<open>rc\<close> and a
  per-unified-index flag \<open>isInteger\<close>; \<open>DGG_isInteger d idx\<close> reads that flag.
\<close>

record 'd DGG_data =
  ncol :: int
  nrow :: int
  lb :: "'d list"
  ub :: "'d list"
  x :: "'d list"
  rc :: "'d list"
  isInteger :: "bool list"

type_synonym DGG_data_t = "real DGG_data"

text \<open>
  The numeric thresholds are macros of CglTwomir.hpp, which is not among the sources, and
  the spec names them without giving values: they are parameters of the model.
\<close>

record 'd DGG_thresholds =
  DGG_NICEFY_MIN_ABSVALUE :: 'd
  DGG_NICEFY_MIN_FIX :: 'd
  DGG_NICEFY_MAX_PADDING :: 'd
  DGG_BOUND_THRESH :: 'd
  DGG_MIN_RHO :: 'd
  DGG_MIN_ALPHA :: 'd
  DGG_NULL_SLACK :: 'd

type_synonym DGG_constants = "real DGG_thresholds"

text \<open>Modelled from the spec: the macro \<open>ABOV\<close> of the absent header; the spec gives
  \<open>ABOV(b) = b - floor(b)\<close>.\<close>

definition ABOV :: "real \<Rightarrow> real" where
  "ABOV v = v - c_floor v"

text \<open>Modelled from the spec: the macro \<open>DGG_MIN\<close> of the absent header is the
  minimum of its two arguments.\<close>

definition DGG_MIN :: "real \<Rightarrow> real \<Rightarrow> real" where
  "DGG_MIN a b = (if a < b then a else b)"

text \<open>An index is inside an allocated block.\<close>

definition in_block :: "'a list \<Rightarrow> int \<Rightarrow> bool" where
  "in_block xs i = (0 \<le> i \<and> i < int (length xs))"

text \<open>\<open>for (i = i0; i < n; i++) body\<close>, stopping at the first error. None of the loop
  bodies below changes the bound (\<open>nz\<close>) it is run with.\<close>

function for_loop :: "(nat \<Rightarrow> 's \<Rightarrow> error + 's) \<Rightarrow> nat \<Rightarrow> nat \<Rightarrow> 's \<Rightarrow> error + 's" where
  "for_loop body i n s =
     (if i < n
      then (case body i s of Inl e \<Rightarrow> Inl e | Inr s' \<Rightarrow> for_loop body (Suc i) n s')
      else Inr s)"
  by pat_completeness auto
termination
  by (relation "measure (\<lambda>(body, i, n, s). n - i)") auto

declare for_loop.simps [simp del]

section \<open>Evaluating a constraint at the current point\<close>

text \<open>\<open>DGG_cutLHS\<close>: \<open>lhs += c->coeff[i] * x[c->index[i]]\<close> for \<open>i < c->nz\<close>.\<close>

definition cutLHS_body :: "DGG_constraint_t \<Rightarrow> real list \<Rightarrow> nat \<Rightarrow> real \<Rightarrow> error + real" where
  "cutLHS_body c xs i lhs =
     (if \<not> (i < length (coeff c) \<and> i < length (index c)) then Inl OutOfBounds
      else if \<not> in_block xs (index c ! i) then Inl OutOfBounds
      else Inr (lhs + coeff c ! i * xs ! nat (index c ! i)))"

definition DGG_cutLHS :: "DGG_constraint_t \<Rightarrow> real list \<Rightarrow> error + real" where
  "DGG_cutLHS c xs = for_loop (cutLHS_body c xs) 0 (nat (nz c)) 0"

text \<open>\<open>DGG_isConstraintViolated\<close>: three tests, each returning 0, then \<open>return 0\<close>.\<close>

definition DGG_isConstraintViolated :: "DGG_constants \<Rightarrow> DGG_data_t \<Rightarrow> DGG_constraint_t \<Rightarrow> error + int" where
  "DGG_isConstraintViolated K d c =
     (case DGG_cutLHS c (x d) of
        Inl e \<Rightarrow> Inl e
      | Inr lhs \<Rightarrow>
          if sense c = CHR ''G'' \<and> lhs > rhs c - DGG_NULL_SLACK K then Inr 0
          else if sense c = CHR ''L'' \<and> lhs < rhs c + DGG_NULL_SLACK K then Inr 0
          else if sense c = CHR ''E'' \<and> \<bar>lhs - rhs c\<bar> < DGG_NULL_SLACK K then Inr 0
          else Inr 0)"

text \<open>The indices in use of a constraint lie inside the Snapshot's arrays.\<close>

definition indices_ok :: "'d DGG_data \<Rightarrow> 'd DGG_constraint \<Rightarrow> bool" where
  "indices_ok d c =
     (nat (nz c) \<le> length (coeff c) \<and> nat (nz c) \<le> length (index c) \<and>
      (\<forall>i < nat (nz c). 0 \<le> index c ! i \<and> index c ! i < ncol d + nrow d))"

text \<open>Every per-index array of the Snapshot has \<open>ncol + nrow\<close> slots.\<close>

definition data_ok :: "'d DGG_data \<Rightarrow> bool" where
  "data_ok d =
     (0 \<le> ncol d \<and> 0 \<le> nrow d \<and>
      length (lb d) = nat (ncol d + nrow d) \<and> length (ub d) = nat (ncol d + nrow d) \<and>
      length (x d) = nat (ncol d + nrow d) \<and> length (rc d) = nat (ncol d + nrow d) \<and>
      length (isInteger d) = nat (ncol d + nrow d))"

section \<open>Allocation\<close>

text \<open>
  \<open>malloc\<close> returns a block whose contents are indeterminate; the model fills it with a
  fixed value. Every slot the code reads has been written before.
\<close>

definition malloc_block :: "int \<Rightarrow> 'a \<Rightarrow> 'a list" where
  "malloc_block k v = replicate (nat k) v"

section \<open>Nicefy\<close>

text \<open>First loop of \<open>DGG_nicefyConstraint\<close>: coefficients below the noise floor become 0.\<close>

definition nicefy_noise_body :: "DGG_constants \<Rightarrow> nat \<Rightarrow> DGG_constraint_t \<Rightarrow> error + DGG_constraint_t" where
  "nicefy_noise_body K i c =
     (if \<not> i < length (coeff c) then Inl OutOfBounds
      else if \<bar>coeff c ! i\<bar> < DGG_NICEFY_MIN_ABSVALUE K
      then Inr (c\<lparr>coeff := (coeff c)[i := 0]\<rparr>)
      else Inr c)"

text \<open>Second loop of \<open>DGG_nicefyConstraint\<close>. The locals \<open>min_coef\<close> and \<open>max_coef\<close> are
  written but never read (the test on them is commented out) and are left out.\<close>

definition nicefy_body :: "DGG_constants \<Rightarrow> DGG_data_t \<Rightarrow> nat \<Rightarrow> DGG_constraint_t \<Rightarrow> error + DGG_constraint_t" where
  "nicefy_body K d i c =
     (if \<not> (i < length (coeff c) \<and> i < length (index c)) then Inl OutOfBounds
      else
        let idx = index c ! i in
        if \<not> in_block (isInteger d) idx then Inl OutOfBounds
        else if isInteger d ! nat idx then
          (if \<not> in_block (ub d) idx then Inl OutOfBounds
           else
             let aht = ABOV (coeff c ! i);
                 u = ub d ! nat idx
             in
               if aht < DGG_NICEFY_MIN_FIX K then
                 let c1 = c\<lparr>coeff := (coeff c)[i := c_floor (coeff c ! i)]\<rparr>;
                     ahtu = aht * u
                 in
                   if ahtu < DGG_NICEFY_MAX_PADDING K
                   then Inr (c1\<lparr>rhs := rhs c1 - ahtu\<rparr>)
                   else Inr (c1\<lparr>coeff := (coeff c1)[i := coeff c1 ! i + DGG_NICEFY_MIN_FIX K]\<rparr>)
               else if 1 - aht < DGG_NICEFY_MIN_FIX K
               then Inr (c\<lparr>coeff := (coeff c)[i := c_ceil (coeff c ! i)]\<rparr>)
               else Inr c)
        else if coeff c ! i < DGG_NICEFY_MIN_ABSVALUE K
        then Inr (c\<lparr>coeff := (coeff c)[i := 0]\<rparr>)
        else if coeff c ! i < DGG_NICEFY_MIN_FIX K then
          (if \<not> in_block (ub d) idx then Inl OutOfBounds
           else
             let au = coeff c ! i * ub d ! nat idx in
             if au < DGG_NICEFY_MAX_PADDING K
             then Inr (c\<lparr>coeff := (coeff c)[i := 0], rhs := rhs c - au\<rparr>)
             else Inr (c\<lparr>coeff := (coeff c)[i := DGG_NICEFY_MIN_FIX K]\<rparr>))
        else Inr c)"

text \<open>\<open>DGG_nicefyConstraint\<close> (the argument \<open>solver_ptr\<close> is not used).\<close>

definition DGG_nicefyConstraint :: "DGG_constants \<Rightarrow> DGG_data_t \<Rightarrow> DGG_constraint_t \<Rightarrow> error + DGG_constraint_t" where
  "DGG_nicefyConstraint K d cut_c =
     (if sense cut_c = CHR ''L'' then Inl (Rval 1)
      else
        (case for_loop (nicefy_noise_body K) 0 (nat (nz cut_c)) cut_c of
           Inl e \<Rightarrow> Inl e
         | Inr c1 \<Rightarrow>
             (case for_loop (nicefy_body K d) 0 (nat (nz c1)) c1 of
                Inl e \<Rightarrow> Inl e
              | Inr c2 \<Rightarrow> Inr (c2\<lparr>sense := CHR ''G''\<rparr>))))"

text \<open>What the two loops together do to one coefficient \<open>v\<close> of a variable with
  integrality flag \<open>isint\<close> and upper bound \<open>u\<close> (used to state the loops' results).\<close>

definition noise_coef :: "DGG_constants \<Rightarrow> real \<Rightarrow> real" where
  "noise_coef K v = (if \<bar>v\<bar> < DGG_NICEFY_MIN_ABSVALUE K then 0 else v)"

definition nice_coef :: "DGG_constants \<Rightarrow> bool \<Rightarrow> real \<Rightarrow> real \<Rightarrow> real" where
  "nice_coef K isint u v =
     (if isint then
        (if ABOV v < DGG_NICEFY_MIN_FIX K then
           (if ABOV v * u < DGG_NICEFY_MAX_PADDING K then c_floor v
            else c_floor v + DGG_NICEFY_MIN_FIX K)
         else if 1 - ABOV v < DGG_NICEFY_MIN_FIX K then c_ceil v
         else v)
      else if v < DGG_NICEFY_MIN_ABSVALUE K then 0
      else if v < DGG_NICEFY_MIN_FIX K then
        (if v * u < DGG_NICEFY_MAX_PADDING K then 0 else DGG_NICEFY_MIN_FIX K)
      else v)"

section \<open>Cut builders\<close>

text \<open>\<open>DGG_newConstraint\<close>: \<open>None\<close> is the null pointer.\<close>

definition DGG_newConstraint :: "int \<Rightarrow> DGG_constraint_t option" where
  "DGG_newConstraint max_arrays =
     (if max_arrays \<le> 0 then None
      else Some \<lparr>nz = 0, max_nz = max_arrays,
                 coeff = malloc_block max_arrays 0, index = malloc_block max_arrays 0,
                 rhs = 0, sense = CHR ''?''\<rparr>)"

text \<open>The coefficient a builder gives a continuous variable.\<close>

definition cont_coef :: "real \<Rightarrow> real" where
  "cont_coef v = (if v > 0 then v else 0)"

text \<open>One iteration of the loop of \<open>DGG_buildMir\<close>; the state is \<open>lnz\<close> and \<open>tmir\<close>.\<close>

definition buildMir_body ::
  "bool list \<Rightarrow> DGG_constraint_t \<Rightarrow> real \<Rightarrow> nat \<Rightarrow> nat \<times> DGG_constraint_t \<Rightarrow>
   error + nat \<times> DGG_constraint_t" where
  "buildMir_body isint base bht i s =
     (case s of (lnz, tmir) \<Rightarrow>
        if \<not> (i < length (coeff base) \<and> i < length isint) then Inl OutOfBounds
        else
          let v = coeff base ! i in
          if \<not> isint ! i then
            (if \<not> lnz < length (coeff tmir) then Inl OutOfBounds
             else if \<not> (i < length (index base) \<and> lnz < length (index tmir)) then Inl OutOfBounds
             else Inr (Suc lnz, tmir\<lparr>coeff := (coeff tmir)[lnz := cont_coef v],
                                      index := (index tmir)[lnz := index base ! i]\<rparr>))
          else
            let vht = ABOV v in
            if vht < 0 then Inl (Exit 1)
            else if \<not> lnz < length (coeff tmir) then Inl OutOfBounds
            else if \<not> (i < length (index base) \<and> lnz < length (index tmir)) then Inl OutOfBounds
            else Inr (Suc lnz, tmir\<lparr>coeff := (coeff tmir)[lnz := bht * c_floor v + DGG_MIN bht vht],
                                     index := (index tmir)[lnz := index base ! i]\<rparr>))"

text \<open>\<open>DGG_buildMir\<close>; the result is the constraint stored in \<open>*cut_out\<close>.\<close>

definition DGG_buildMir :: "bool list \<Rightarrow> DGG_constraint_t \<Rightarrow> error + DGG_constraint_t" where
  "DGG_buildMir isint base =
     (let b = rhs base;
          bht = ABOV b;
          bup = c_ceil b
      in
        if sense base = CHR ''L'' then Inl (Rval 1)
        else if nz base = 0 then Inl (Rval 1)
        else
          (case DGG_newConstraint (nz base) of
             None \<Rightarrow> Inl NullPointer
           | Some t0 \<Rightarrow>
               (case for_loop (buildMir_body isint base bht) 0 (nat (nz base))
                       (0, t0\<lparr>sense := CHR ''G'', rhs := bht * bup\<rparr>) of
                  Inl e \<Rightarrow> Inl e
                | Inr (lnz, tmir) \<Rightarrow> Inr (tmir\<lparr>nz := int lnz\<rparr>))))"

section \<open>The cut list\<close>

text \<open>
  \<open>DGG_list_t\<close>: the fields \<open>n\<close>, \<open>c\<close>, \<open>ctype\<close>, \<open>alpha\<close> of the source, prefixed. The
  array \<open>c\<close> holds pointers to constraints; a pointer is an address of the store, 0 is
  the null pointer.
\<close>

type_synonym store = "nat \<Rightarrow> DGG_constraint_t option"

record DGG_list_t =
  list_n :: int
  list_c :: "nat list"
  list_ctype :: "int list"
  list_alpha :: "real list"

definition DGG_list_init :: "DGG_list_t" where
  "DGG_list_init = \<lparr>list_n = 0, list_c = [], list_ctype = [], list_alpha = []\<rparr>"

text \<open>\<open>realloc\<close> to \<open>k\<close> slots keeps the common prefix (allocation is taken to succeed).\<close>

definition realloc_block :: "'a list \<Rightarrow> int \<Rightarrow> 'a \<Rightarrow> 'a list" where
  "realloc_block xs k v = take (nat k) xs @ replicate (nat k - length xs) v"

definition DGG_list_addcut :: "DGG_list_t \<Rightarrow> nat \<Rightarrow> int \<Rightarrow> real \<Rightarrow> error + DGG_list_t" where
  "DGG_list_addcut l cut_p ctype a =
     (let k = list_n l + 1;
          cs = realloc_block (list_c l) k 0;
          ts = realloc_block (list_ctype l) k 0;
          as = realloc_block (list_alpha l) k 0
      in
        if \<not> (in_block cs (k - 1) \<and> in_block ts (k - 1) \<and> in_block as (k - 1)) then Inl OutOfBounds
        else Inr \<lparr>list_n = k, list_c = cs[nat (k - 1) := cut_p],
                  list_ctype = ts[nat (k - 1) := ctype], list_alpha = as[nat (k - 1) := a]\<rparr>)"

text \<open>\<open>DGG_freeConstraint\<close>: nothing for the null pointer, else the object is released.\<close>

definition DGG_freeConstraint :: "store \<Rightarrow> nat \<Rightarrow> error + store" where
  "DGG_freeConstraint h p =
     (if p = 0 then Inr h
      else (case h p of None \<Rightarrow> Inl InvalidFree | Some _ \<Rightarrow> Inr (h(p := None))))"

text \<open>The test that opens \<open>DGG_list_delcut\<close>: \<open>i >= l->n && i < 0\<close>.\<close>

definition delcut_guard :: "DGG_list_t \<Rightarrow> int \<Rightarrow> bool" where
  "delcut_guard l i = (i \<ge> list_n l \<and> i < 0)"

text \<open>\<open>DGG_list_delcut\<close>, on the store and the list.\<close>

definition DGG_list_delcut :: "store \<times> DGG_list_t \<Rightarrow> int \<Rightarrow> error + store \<times> DGG_list_t" where
  "DGG_list_delcut s i =
     (case s of (h, l) \<Rightarrow>
        if delcut_guard l i then Inr (h, l)
        else if \<not> in_block (list_c l) i then Inl OutOfBounds
        else
          (case DGG_freeConstraint h (list_c l ! nat i) of
             Inl e \<Rightarrow> Inl e
           | Inr h' \<Rightarrow>
               let m = list_n l - 1 in
               if \<not> in_block (list_c l) m then Inl OutOfBounds
               else if \<not> (in_block (list_ctype l) i \<and> in_block (list_ctype l) m) then Inl OutOfBounds
               else if \<not> (in_block (list_alpha l) i \<and> in_block (list_alpha l) m) then Inl OutOfBounds
               else Inr (h', l\<lparr>list_c := (list_c l)[nat i := list_c l ! nat m],
                                list_ctype := (list_ctype l)[nat i := list_ctype l ! nat m],
                                list_alpha := (list_alpha l)[nat i := list_alpha l ! nat m],
                                list_n := list_n l - 1\<rparr>)))"

text \<open>The list's invariant: the three arrays have at least \<open>n\<close> slots, and the first
  \<open>n\<close> pointers are distinct, not null, and allocated.\<close>

definition list_ok :: "store \<Rightarrow> DGG_list_t \<Rightarrow> bool" where
  "list_ok h l =
     (0 \<le> list_n l \<and> nat (list_n l) \<le> length (list_c l) \<and>
      nat (list_n l) \<le> length (list_ctype l) \<and> nat (list_n l) \<le> length (list_alpha l) \<and>
      distinct (take (nat (list_n l)) (list_c l)) \<and>
      (\<forall>p \<in> set (take (nat (list_n l)) (list_c l)). p \<noteq> 0 \<and> h p \<noteq> None))"

section \<open>The generator object\<close>

text \<open>
  The data members of \<open>CglTwomir\<close> that its constructors name. A member whose value is
  indeterminate (never initialised) is \<open>None\<close>. The base-class subobject is copied and
  assigned by \<open>CglCutGenerator\<close>'s own operations, which are outside these sources, and
  is left out, as is \<open>probname_\<close>, whose declaration is in the absent header. The members
  are written without the trailing underscore of the source (\<open>do_mir_\<close> is \<open>do_mir\<close>).
\<close>

record CglTwomir =
  do_mir :: "bool option"
  do_2mir :: "bool option"
  do_tab :: "bool option"
  do_form :: "bool option"
  t_min :: "int option"
  t_max :: "int option"
  q_min :: "int option"
  q_max :: "int option"
  a_max :: "int option"
  form_nrows :: "int option"

text \<open>Storage before any member is initialised.\<close>

definition raw_object :: CglTwomir where
  "raw_object = \<lparr>do_mir = None, do_2mir = None, do_tab = None, do_form = None,
                 t_min = None, t_max = None, q_min = None, q_max = None,
                 a_max = None, form_nrows = None\<rparr>"

text \<open>The default constructor.\<close>

definition CglTwomir_default :: CglTwomir where
  "CglTwomir_default =
     \<lparr>do_mir = Some True, do_2mir = Some True, do_tab = Some True, do_form = Some True,
      t_min = Some 1, t_max = Some 1, q_min = Some 1, q_max = Some 1,
      a_max = Some 2, form_nrows = Some 0\<rparr>"

text \<open>The copy constructor: its initialiser list names four members.\<close>

definition CglTwomir_copy :: "CglTwomir \<Rightarrow> CglTwomir" where
  "CglTwomir_copy source =
     raw_object\<lparr>t_min := t_min source, t_max := t_max source,
                q_min := q_min source, q_max := q_max source\<rparr>"

text \<open>\<open>clone\<close>: \<open>new CglTwomir(*this)\<close>; the result is the new object.\<close>

definition clone :: "CglTwomir \<Rightarrow> CglTwomir" where
  "clone this = CglTwomir_copy this"

text \<open>\<open>operator=\<close> on a store of objects: \<open>this\<close> and \<open>rhs\<close> are addresses, and nothing
  is assigned when they are the same.\<close>

definition CglTwomir_assign :: "(nat \<Rightarrow> CglTwomir) \<Rightarrow> nat \<Rightarrow> nat \<Rightarrow> (nat \<Rightarrow> CglTwomir)" where
  "CglTwomir_assign st this rhs_addr =
     (if this \<noteq> rhs_addr
      then st(this := (st this)\<lparr>t_min := t_min (st rhs_addr), t_max := t_max (st rhs_addr),
                                q_min := q_min (st rhs_addr), q_max := q_max (st rhs_addr)\<rparr>)
      else st)"

section \<open>Concrete inputs\<close>

text \<open>Values for the thresholds, a small Snapshot and two constraints, for evaluating
  the functions at concrete inputs.\<close>

definition example_K :: DGG_constants where
  "example_K = \<lparr>DGG_NICEFY_MIN_ABSVALUE = 1 / 10 ^ 13, DGG_NICEFY_MIN_FIX = 1 / 10 ^ 7,
                 DGG_NICEFY_MAX_PADDING = 1 / 10 ^ 6, DGG_BOUND_THRESH = 1 / 10 ^ 6,
                 DGG_MIN_RHO = 1 / 10 ^ 7, DGG_MIN_ALPHA = 1 / 10 ^ 7,
                 DGG_NULL_SLACK = 1 / 10 ^ 5\<rparr>"

definition example_data :: DGG_data_t where
  "example_data = \<lparr>ncol = 2, nrow = 1, lb = [0, 0, 0], ub = [10, 1, 5], x = [7 / 2, 1 / 4, 0],
                    rc = [0, 1, 0], isInteger = [True, False, True]\<rparr>"

definition example_row :: DGG_constraint_t where
  "example_row = \<lparr>nz = 2, max_nz = 3, coeff = [2, 3, 0], index = [0, 1, 0], rhs = 100,
                   sense = CHR ''G''\<rparr>"

text \<open>A store with three constraints at the addresses 1, 2, 3 and a list of them.\<close>

definition example_store :: store where
  "example_store = (\<lambda>p. if p = 1 \<or> p = 2 \<or> p = 3 then Some example_row else None)"


section \<open>Conditions on the thresholds, and settled coefficients\<close>

text \<open>The order between the nicefy thresholds under which a second pass changes no
  coefficient: a positive noise floor, not above the near-integer threshold, which is at
  most one half, and a positive padding limit.\<close>

definition thresholds_ok :: "DGG_constants \<Rightarrow> bool" where
  "thresholds_ok K =
     (0 < DGG_NICEFY_MIN_ABSVALUE K \<and> DGG_NICEFY_MIN_ABSVALUE K \<le> DGG_NICEFY_MIN_FIX K \<and>
      DGG_NICEFY_MIN_FIX K \<le> 1 / 2 \<and> 0 < DGG_NICEFY_MAX_PADDING K)"

text \<open>A coefficient \<open>v\<close> of the variable \<open>idx\<close> is settled when both loops of
  \<open>DGG_nicefyConstraint\<close> can read what they need for it and leave it as it is.\<close>

definition settled :: "DGG_constants \<Rightarrow> DGG_data_t \<Rightarrow> int \<Rightarrow> real \<Rightarrow> bool" where
  "settled K d idx v =
     (in_block (isInteger d) idx \<and>
      (isInteger d ! nat idx \<longrightarrow> in_block (ub d) idx) \<and>
      noise_coef K v = v \<and>
      nice_coef K (isInteger d ! nat idx) (ub d ! nat idx) v = v)"

text \<open>A constraint with a near-integer coefficient from above, a tiny coefficient of a
  continuous variable and a near-integer coefficient from below, and its nicefied form.\<close>

definition noisy_row :: DGG_constraint_t where
  "noisy_row = \<lparr>nz = 3, max_nz = 3, coeff = [3 + 1 / 10 ^ 8, 1 / 10 ^ 9, 5 - 1 / 10 ^ 8],
                 index = [0, 1, 2], rhs = 7 / 2, sense = CHR ''E''\<rparr>"

definition nice_row :: DGG_constraint_t where
  "nice_row = \<lparr>nz = 3, max_nz = 3, coeff = [3, 0, 5], index = [0, 1, 2],
                rhs = 7 / 2 - 1 / 10 ^ 7 - 1 / 10 ^ 9, sense = CHR ''G''\<rparr>"

section \<open>Stating what the loops compute\<close>

text \<open>\<open>slotwise g k xs\<close>: the array \<open>xs\<close> after slot \<open>j\<close> has been replaced by
  \<open>g j (xs ! j)\<close> for every \<open>j < k\<close>.\<close>

definition slotwise :: "(nat \<Rightarrow> 'a \<Rightarrow> 'a) \<Rightarrow> nat \<Rightarrow> 'a list \<Rightarrow> 'a list" where
  "slotwise g k xs = map (\<lambda>j. if j < k then g j (xs ! j) else xs ! j) [0..<length xs]"

text \<open>The entry of a variable in a MIR cut.\<close>

definition mir_coef :: "real \<Rightarrow> bool \<Rightarrow> real \<Rightarrow> real" where
  "mir_coef bht isint v = (if isint then bht * c_floor v + DGG_MIN bht (ABOV v) else cont_coef v)"

text \<open>A base \<open>5/2 x\<^sub>0 + 5/4 x\<^sub>1 - x\<^sub>2 \<ge> 27/10\<close> with \<open>x\<^sub>0\<close> integer.\<close>

definition mir_base :: DGG_constraint_t where
  "mir_base = \<lparr>nz = 3, max_nz = 3, coeff = [5 / 2, 5 / 4, - 1], index = [0, 1, 2],
                rhs = 27 / 10, sense = CHR ''G''\<rparr>"

definition mir_isint :: "bool list" where
  "mir_isint = [True, False, False]"

section \<open>Machine arithmetic\<close>

text \<open>
  The operations on \<open>double\<close> that the functions of the next section use: \<open>+\<close>, \<open>-\<close>, \<open>*\<close>,
  \<open>/\<close>, \<open>floor\<close>, \<open>ceil\<close>, \<open>fabs\<close>, \<open><\<close>, \<open><=\<close> and the conversion of an integer literal.
  The functions take a record of these operations, so that what is proved of them holds
  for every arithmetic: for one in which the operations round, in which \<open>\<not> a < b\<close> need not
  be \<open>b \<le> a\<close> (a comparison with a NaN is false), and in which \<open>a - b < c\<close> need not be
  \<open>a < b + c\<close>. The C comparisons \<open>a > b\<close> and \<open>a >= b\<close> are \<open>A_lt A b a\<close> and \<open>A_le A b a\<close>.
\<close>

record 'd arith =
  A_add :: "'d \<Rightarrow> 'd \<Rightarrow> 'd"
  A_sub :: "'d \<Rightarrow> 'd \<Rightarrow> 'd"
  A_mul :: "'d \<Rightarrow> 'd \<Rightarrow> 'd"
  A_div :: "'d \<Rightarrow> 'd \<Rightarrow> 'd"
  A_floor :: "'d \<Rightarrow> 'd"
  A_ceil :: "'d \<Rightarrow> 'd"
  A_fabs :: "'d \<Rightarrow> 'd"
  A_lt :: "'d \<Rightarrow> 'd \<Rightarrow> bool"
  A_le :: "'d \<Rightarrow> 'd \<Rightarrow> bool"
  A_lit :: "int \<Rightarrow> 'd"

text \<open>Real arithmetic: no operation rounds.\<close>

definition exact_arith :: "real arith" where
  "exact_arith = \<lparr>A_add = (+), A_sub = (-), A_mul = (*), A_div = (/),
                   A_floor = c_floor, A_ceil = c_ceil, A_fabs = abs,
                   A_lt = (<), A_le = (\<le>), A_lit = of_int\<rparr>"

text \<open>
  IEEE 754 double arithmetic on the normal range: each of \<open>+\<close>, \<open>-\<close>, \<open>*\<close>, \<open>/\<close> returns the
  exact result rounded to the nearest number with a significand of 53 bits, a tie going to
  the even significand. \<open>round_even q\<close> is the integer nearest to \<open>q\<close>; \<open>round_at e v\<close> is
  the multiple of \<open>2^e\<close> nearest to \<open>v\<close>; \<open>double_round v\<close> rounds \<open>v\<close> at the exponent
  \<open>\<lfloor>log\<^sub>2 \<bar>v\<bar>\<rfloor> - 52\<close>. \<open>floor\<close>, \<open>ceil\<close>, \<open>fabs\<close> and the comparisons are exact on doubles.
  Overflow, subnormal numbers, infinities and NaN are not represented: \<open>double_arith\<close> is
  evaluated below only at doubles for which every intermediate result is 0 or in the
  normal range.
\<close>

definition round_even :: "real \<Rightarrow> int" where
  "round_even q =
     (if q - of_int \<lfloor>q\<rfloor> < 1 / 2 then \<lfloor>q\<rfloor>
      else if q - of_int \<lfloor>q\<rfloor> > 1 / 2 then \<lfloor>q\<rfloor> + 1
      else if even \<lfloor>q\<rfloor> then \<lfloor>q\<rfloor> else \<lfloor>q\<rfloor> + 1)"

definition round_at :: "int \<Rightarrow> real \<Rightarrow> real" where
  "round_at e v = of_int (round_even (v / 2 powr of_int e)) * 2 powr of_int e"

definition double_round :: "real \<Rightarrow> real" where
  "double_round v = (if v = 0 then 0 else round_at (\<lfloor>log 2 \<bar>v\<bar>\<rfloor> - 52) v)"

definition double_arith :: "real arith" where
  "double_arith =
     \<lparr>A_add = (\<lambda>a b. double_round (a + b)), A_sub = (\<lambda>a b. double_round (a - b)),
      A_mul = (\<lambda>a b. double_round (a * b)), A_div = (\<lambda>a b. double_round (a / b)),
      A_floor = c_floor, A_ceil = c_ceil, A_fabs = abs,
      A_lt = (<), A_le = (\<le>), A_lit = of_int\<rparr>"

section \<open>The functions decided by rounded comparisons\<close>

text \<open>The macros \<open>ABOV\<close> and \<open>DGG_MIN\<close> (modelled from the spec, as above: they are
  macros of the absent header), \<open>DGG_cutLHS\<close>, \<open>DGG_isConstraintViolated\<close> and
  \<open>DGG_newConstraint\<close> once more, over the operations of a machine arithmetic \<open>A\<close>; the
  suffix \<open>_m\<close> tells them from the ones over \<open>real\<close>. The sum of \<open>DGG_cutLHS\<close> starts at
  \<open>0.0\<close> and adds the products in the order of the loop.\<close>

definition ABOV_m :: "'d arith \<Rightarrow> 'd \<Rightarrow> 'd" where
  "ABOV_m A v = A_sub A v (A_floor A v)"

definition DGG_MIN_m :: "'d arith \<Rightarrow> 'd \<Rightarrow> 'd \<Rightarrow> 'd" where
  "DGG_MIN_m A a b = (if A_lt A a b then a else b)"

definition cutLHS_body_m ::
  "'d arith \<Rightarrow> 'd DGG_constraint \<Rightarrow> 'd list \<Rightarrow> nat \<Rightarrow> 'd \<Rightarrow> error + 'd" where
  "cutLHS_body_m A c xs i lhs =
     (if \<not> (i < length (coeff c) \<and> i < length (index c)) then Inl OutOfBounds
      else if \<not> in_block xs (index c ! i) then Inl OutOfBounds
      else Inr (A_add A lhs (A_mul A (coeff c ! i) (xs ! nat (index c ! i)))))"

definition DGG_cutLHS_m :: "'d arith \<Rightarrow> 'd DGG_constraint \<Rightarrow> 'd list \<Rightarrow> error + 'd" where
  "DGG_cutLHS_m A c xs = for_loop (cutLHS_body_m A c xs) 0 (nat (nz c)) (A_lit A 0)"

definition DGG_isConstraintViolated_m ::
  "'d arith \<Rightarrow> 'd DGG_thresholds \<Rightarrow> 'd DGG_data \<Rightarrow> 'd DGG_constraint \<Rightarrow> error + int" where
  "DGG_isConstraintViolated_m A K d c =
     (case DGG_cutLHS_m A c (x d) of
        Inl e \<Rightarrow> Inl e
      | Inr lhs \<Rightarrow>
          if sense c = CHR ''G'' \<and> A_lt A (A_sub A (rhs c) (DGG_NULL_SLACK K)) lhs then Inr 0
          else if sense c = CHR ''L'' \<and> A_lt A lhs (A_add A (rhs c) (DGG_NULL_SLACK K)) then Inr 0
          else if sense c = CHR ''E'' \<and> A_lt A (A_fabs A (A_sub A lhs (rhs c))) (DGG_NULL_SLACK K)
          then Inr 0
          else Inr 0)"

definition DGG_newConstraint_m :: "'d arith \<Rightarrow> int \<Rightarrow> 'd DGG_constraint option" where
  "DGG_newConstraint_m A max_arrays =
     (if max_arrays \<le> 0 then None
      else Some \<lparr>nz = 0, max_nz = max_arrays,
                 coeff = malloc_block max_arrays (A_lit A 0), index = malloc_block max_arrays 0,
                 rhs = A_lit A 0, sense = CHR ''?''\<rparr>)"

text \<open>\<open>DGG_isCutDesirable\<close>: the left-hand side is computed first, then the cap on
  \<open>nz\<close> and the three violation tests. The test \<open>lhs > (rhs - DGG_NULL_SLACK)\<close> compares
  \<open>lhs\<close> with the double \<open>rhs - DGG_NULL_SLACK\<close>.\<close>

definition DGG_isCutDesirable ::
  "'d arith \<Rightarrow> 'd DGG_thresholds \<Rightarrow> 'd DGG_constraint \<Rightarrow> 'd DGG_data \<Rightarrow> error + int" where
  "DGG_isCutDesirable A K c d =
     (case DGG_cutLHS_m A c (x d) of
        Inl e \<Rightarrow> Inl e
      | Inr lhs \<Rightarrow>
          if nz c > 500 then Inr 0
          else if sense c = CHR ''G'' \<and> A_lt A (A_sub A (rhs c) (DGG_NULL_SLACK K)) lhs then Inr 0
          else if sense c = CHR ''L'' \<and> A_lt A lhs (A_add A (rhs c) (DGG_NULL_SLACK K)) then Inr 0
          else if sense c = CHR ''E'' \<and> A_lt A (A_fabs A (A_sub A lhs (rhs c))) (DGG_NULL_SLACK K)
          then Inr 0
          else Inr 1)"

text \<open>\<open>DGG_is_a_multiple_of_b\<close>: the quotient \<open>b/a\<close> is stored in a double, floored,
  multiplied by \<open>a\<close> and subtracted from \<open>b\<close>, each operation rounding.\<close>

definition DGG_is_a_multiple_of_b :: "'d arith \<Rightarrow> 'd DGG_thresholds \<Rightarrow> 'd \<Rightarrow> 'd \<Rightarrow> int" where
  "DGG_is_a_multiple_of_b A K a b =
     (let c = A_div A b a in
      if A_lt A (A_sub A b (A_mul A a (A_floor A c))) (DGG_MIN_RHO K) then 1 else 0)"

text \<open>\<open>DGG_is2stepValid\<close>. The local \<open>tau_lim\<close> is computed and never read; it is left
  out.\<close>

definition DGG_is2stepValid :: "'d arith \<Rightarrow> 'd DGG_thresholds \<Rightarrow> 'd \<Rightarrow> 'd \<Rightarrow> int" where
  "DGG_is2stepValid A K alpha bht =
     (if A_lt A alpha (DGG_MIN_ALPHA K) then 0
      else
        let tau = A_ceil A (A_div A bht alpha) in
        if DGG_is_a_multiple_of_b A K alpha bht \<noteq> 0 then 0
        else if A_lt A alpha bht \<and> A_lt A (A_lit A 0) alpha
        then (if A_le A tau (A_div A (A_lit A 1) alpha) then 1 else 0)
        else 0)"

text \<open>One iteration of the loop of \<open>DGG_build2step\<close>; the state is \<open>lnz\<close> and \<open>tmir\<close>.
  The coefficient of an integer variable is
  \<open>floor(v)*tau*rho + k*rho + DGG_MIN(rho, vht - k*alpha)\<close>, evaluated from left to right.\<close>

definition build2step_body ::
  "'d arith \<Rightarrow> 'd \<Rightarrow> bool list \<Rightarrow> 'd DGG_constraint \<Rightarrow> 'd \<Rightarrow> 'd \<Rightarrow> nat \<Rightarrow>
   nat \<times> 'd DGG_constraint \<Rightarrow> error + nat \<times> 'd DGG_constraint" where
  "build2step_body A alpha isint base tau rho i s =
     (case s of (lnz, tmir) \<Rightarrow>
        if \<not> (i < length (coeff base) \<and> i < length isint) then Inl OutOfBounds
        else
          let v = coeff base ! i in
          if \<not> isint ! i then
            (if \<not> lnz < length (coeff tmir) then Inl OutOfBounds
             else if \<not> (i < length (index base) \<and> lnz < length (index tmir)) then Inl OutOfBounds
             else Inr (Suc lnz,
                       tmir\<lparr>coeff := (coeff tmir)
                               [lnz := (if A_lt A (A_lit A 0) v then v else A_lit A 0)],
                            index := (index tmir)[lnz := index base ! i]\<rparr>))
          else
            let vht = A_sub A v (A_floor A v) in
            if A_lt A vht (A_lit A 0) then Inl (Exit 1)
            else
              let k = DGG_MIN_m A (A_sub A tau (A_lit A 1)) (A_floor A (A_div A vht alpha)) in
              if \<not> lnz < length (coeff tmir) then Inl OutOfBounds
              else if \<not> (i < length (index base) \<and> lnz < length (index tmir)) then Inl OutOfBounds
              else Inr (Suc lnz,
                        tmir\<lparr>coeff := (coeff tmir)
                                [lnz := A_add A
                                   (A_add A (A_mul A (A_mul A (A_floor A v) tau) rho) (A_mul A k rho))
                                   (DGG_MIN_m A rho (A_sub A vht (A_mul A k alpha)))],
                             index := (index tmir)[lnz := index base ! i]\<rparr>))"

text \<open>\<open>DGG_build2step\<close>; the result is the constraint stored in \<open>*cut_out\<close>. \<open>tau\<close> and
  \<open>rho\<close> are computed before \<open>alpha\<close> is tested.\<close>

definition DGG_build2step ::
  "'d arith \<Rightarrow> 'd DGG_thresholds \<Rightarrow> 'd \<Rightarrow> bool list \<Rightarrow> 'd DGG_constraint \<Rightarrow>
   error + 'd DGG_constraint" where
  "DGG_build2step A K alpha isint base =
     (let b = rhs base in
        if sense base = CHR ''L'' then Inl (Rval 1)
        else if nz base = 0 then Inl (Rval 1)
        else
          let bht = ABOV_m A b;
              bup = A_ceil A b;
              tau = A_ceil A (A_div A bht alpha);
              rho = A_sub A bht (A_mul A alpha (A_floor A (A_div A bht alpha)))
          in
            if A_le A bht alpha \<or> A_le A alpha (A_lit A 0) then Inl (Rval 1)
            else if DGG_is_a_multiple_of_b A K alpha bht \<noteq> 0 then Inl (Rval 1)
            else if A_lt A rho (DGG_MIN_RHO K) then Inl (Rval 1)
            else
              (case DGG_newConstraint_m A (nz base) of
                 None \<Rightarrow> Inl NullPointer
               | Some t0 \<Rightarrow>
                   (case for_loop (build2step_body A alpha isint base tau rho) 0 (nat (nz base))
                           (0, t0\<lparr>rhs := A_mul A (A_mul A bup tau) rho, sense := CHR ''G''\<rparr>) of
                      Inl e \<Rightarrow> Inl e
                    | Inr (lnz, tmir) \<Rightarrow> Inr (tmir\<lparr>nz := int lnz\<rparr>))))"

text \<open>One iteration of the loop of \<open>DGG_transformConstraint\<close>. The state is the three
  output arrays \<open>px\<close>, \<open>rc\<close>, \<open>pi\<close> (here \<open>px\<close>, \<open>prc\<close>, \<open>pis\<close>) and the constraint, which is changed
  in place. The arrays are allocated with \<open>max_nz\<close> slots; \<open>px[i]\<close> is first set to
  \<open>data->x[idx]\<close> and then overwritten on either branch, so only the last write is kept.\<close>

definition transform_body ::
  "'d arith \<Rightarrow> 'd DGG_thresholds \<Rightarrow> 'd DGG_data \<Rightarrow> nat \<Rightarrow>
   'd list \<times> 'd list \<times> bool list \<times> 'd DGG_constraint \<Rightarrow>
   error + 'd list \<times> 'd list \<times> bool list \<times> 'd DGG_constraint" where
  "transform_body A K d i s =
     (case s of (px, prc, pis, c) \<Rightarrow>
        if \<not> (i < length (index c) \<and> i < length (coeff c)) then Inl OutOfBounds
        else if \<not> (i < length px \<and> i < length prc \<and> i < length pis) then Inl OutOfBounds
        else
          let idx = index c ! i in
          if \<not> (in_block (x d) idx \<and> in_block (rc d) idx \<and> in_block (isInteger d) idx \<and>
                 in_block (ub d) idx \<and> in_block (lb d) idx) then Inl OutOfBounds
          else
            let k = nat idx;
                prc' = prc[i := rc d ! k];
                pis' = pis[i := isInteger d ! k];
                half = A_div A (A_sub A (ub d ! k) (lb d ! k)) (A_lit A 2)
            in
              if A_lt A (A_sub A (ub d ! k) (x d ! k)) half then
                let p = A_sub A (ub d ! k) (x d ! k);
                    p' = (if A_le A (A_fabs A p) (DGG_BOUND_THRESH K) then A_lit A 0 else p);
                    c1 = c\<lparr>rhs := A_sub A (rhs c) (A_mul A (coeff c ! i) (ub d ! k))\<rparr>;
                    c2 = c1\<lparr>coeff := (coeff c1)[i := A_mul A (coeff c1 ! i) (A_lit A (- 1))]\<rparr>
                in Inr (px[i := p'], prc', pis', c2)
              else
                let p = A_sub A (x d ! k) (lb d ! k);
                    p' = (if A_le A (A_fabs A p) (DGG_BOUND_THRESH K) then A_lit A 0 else p);
                    c1 = c\<lparr>rhs := A_sub A (rhs c) (A_mul A (coeff c ! i) (lb d ! k))\<rparr>
                in Inr (px[i := p'], prc', pis', c1))"

text \<open>\<open>DGG_transformConstraint\<close>. The file defines \<open>DGG_DEBUG_DGG\<close> as 1, so the closing
  \<open>DGG_TEST(DGG_isConstraintViolated(data, constraint), 1, ...)\<close> is compiled in.\<close>

definition DGG_transformConstraint ::
  "'d arith \<Rightarrow> 'd DGG_thresholds \<Rightarrow> 'd DGG_data \<Rightarrow> 'd DGG_constraint \<Rightarrow>
   error + 'd list \<times> 'd list \<times> bool list \<times> 'd DGG_constraint" where
  "DGG_transformConstraint A K d c =
     (case for_loop (transform_body A K d) 0 (nat (nz c))
             (malloc_block (max_nz c) (A_lit A 0), malloc_block (max_nz c) (A_lit A 0),
              malloc_block (max_nz c) False, c) of
        Inl e \<Rightarrow> Inl e
      | Inr out \<Rightarrow>
          (case DGG_isConstraintViolated_m A K d (snd (snd (snd out))) of
             Inl e \<Rightarrow> Inl e
           | Inr v \<Rightarrow> if v \<noteq> 0 then Inl (Rval 1) else Inr out))"

text \<open>One iteration of the loop of \<open>DGG_unTransformConstraint\<close>, and the function.\<close>

definition unTransform_body ::
  "'d arith \<Rightarrow> 'd DGG_data \<Rightarrow> nat \<Rightarrow> 'd DGG_constraint \<Rightarrow> error + 'd DGG_constraint" where
  "unTransform_body A d i c =
     (if \<not> (i < length (index c) \<and> i < length (coeff c)) then Inl OutOfBounds
      else
        let idx = index c ! i in
        if \<not> (in_block (ub d) idx \<and> in_block (lb d) idx \<and> in_block (x d) idx) then Inl OutOfBounds
        else
          let k = nat idx;
              half = A_div A (A_sub A (ub d ! k) (lb d ! k)) (A_lit A 2)
          in
            if A_lt A (A_sub A (ub d ! k) (x d ! k)) half then
              let c1 = c\<lparr>rhs := A_sub A (rhs c) (A_mul A (coeff c ! i) (ub d ! k))\<rparr>
              in Inr (c1\<lparr>coeff := (coeff c1)[i := A_mul A (coeff c1 ! i) (A_lit A (- 1))]\<rparr>)
            else Inr (c\<lparr>rhs := A_add A (rhs c) (A_mul A (coeff c ! i) (lb d ! k))\<rparr>))"

definition DGG_unTransformConstraint ::
  "'d arith \<Rightarrow> 'd DGG_data \<Rightarrow> 'd DGG_constraint \<Rightarrow> error + 'd DGG_constraint" where
  "DGG_unTransformConstraint A d c = for_loop (unTransform_body A d) 0 (nat (nz c)) c"

section \<open>Stating what the machine loops compute\<close>

text \<open>The left-hand side after \<open>k\<close> iterations of the loop of \<open>DGG_cutLHS\<close>.\<close>

definition lhs_sum :: "'d arith \<Rightarrow> 'd DGG_constraint \<Rightarrow> 'd list \<Rightarrow> nat \<Rightarrow> 'd" where
  "lhs_sum A c xs k =
     foldl (\<lambda>s i. A_add A s (A_mul A (coeff c ! i) (xs ! nat (index c ! i)))) (A_lit A 0) [0..<k]"

text \<open>The entry \<open>DGG_build2step\<close> writes for a variable with base coefficient \<open>v\<close>.\<close>

definition twostep_entry :: "'d arith \<Rightarrow> 'd \<Rightarrow> 'd \<Rightarrow> 'd \<Rightarrow> bool \<Rightarrow> 'd \<Rightarrow> 'd" where
  "twostep_entry A alpha tau rho isint v =
     (if \<not> isint then (if A_lt A (A_lit A 0) v then v else A_lit A 0)
      else
        let vht = A_sub A v (A_floor A v);
            k = DGG_MIN_m A (A_sub A tau (A_lit A 1)) (A_floor A (A_div A vht alpha))
        in A_add A (A_add A (A_mul A (A_mul A (A_floor A v) tau) rho) (A_mul A k rho))
             (DGG_MIN_m A rho (A_sub A vht (A_mul A k alpha))))"

text \<open>The test \<open>data->ub[idx] - data->x[idx] < half\<close> of the transform and of its
  inverse; what either does to coefficient \<open>m\<close>; what the transform does to the
  right-hand side for coefficient \<open>m\<close>, and what the inverse does.\<close>

definition closer_to_ub :: "'d arith \<Rightarrow> 'd DGG_data \<Rightarrow> int \<Rightarrow> bool" where
  "closer_to_ub A d idx =
     A_lt A (A_sub A (ub d ! nat idx) (x d ! nat idx))
       (A_div A (A_sub A (ub d ! nat idx) (lb d ! nat idx)) (A_lit A 2))"

definition flip_sign :: "'d arith \<Rightarrow> 'd DGG_data \<Rightarrow> 'd DGG_constraint \<Rightarrow> nat \<Rightarrow> 'd \<Rightarrow> 'd" where
  "flip_sign A d c m v = (if closer_to_ub A d (index c ! m) then A_mul A v (A_lit A (- 1)) else v)"

definition shift_rhs :: "'d arith \<Rightarrow> 'd DGG_data \<Rightarrow> 'd DGG_constraint \<Rightarrow> 'd \<Rightarrow> nat \<Rightarrow> 'd" where
  "shift_rhs A d c r m =
     A_sub A r (A_mul A (coeff c ! m)
        (if closer_to_ub A d (index c ! m) then ub d ! nat (index c ! m)
         else lb d ! nat (index c ! m)))"

definition unshift_rhs :: "'d arith \<Rightarrow> 'd DGG_data \<Rightarrow> 'd DGG_constraint \<Rightarrow> 'd \<Rightarrow> nat \<Rightarrow> 'd" where
  "unshift_rhs A d c r m =
     (if closer_to_ub A d (index c ! m)
      then A_sub A r (A_mul A (coeff c ! m) (ub d ! nat (index c ! m)))
      else A_add A r (A_mul A (coeff c ! m) (lb d ! nat (index c ! m))))"

section \<open>Concrete inputs for the machine functions\<close>

text \<open>The thresholds of \<open>example_K\<close> as doubles: the doubles nearest to \<open>1e-13\<close>,
  \<open>1e-7\<close>, \<open>1e-6\<close>, \<open>1e-6\<close>, \<open>1e-7\<close>, \<open>1e-7\<close> and \<open>1e-5\<close>, each written as a
  significand below \<open>2^53\<close> over a power of 2.\<close>

definition double_K :: "real DGG_thresholds" where
  "double_K = \<lparr>DGG_NICEFY_MIN_ABSVALUE = 3961408125713217 / 2 ^ 95,
                DGG_NICEFY_MIN_FIX = 944473296573929 / 2 ^ 73,
                DGG_NICEFY_MAX_PADDING = 4722366482869645 / 2 ^ 72,
                DGG_BOUND_THRESH = 4722366482869645 / 2 ^ 72,
                DGG_MIN_RHO = 944473296573929 / 2 ^ 73,
                DGG_MIN_ALPHA = 944473296573929 / 2 ^ 73,
                DGG_NULL_SLACK = 5902958103587057 / 2 ^ 69\<rparr>"

text \<open>A cut \<open>x\<^sub>0 \<ge> 0\<close> and a point with \<open>x\<^sub>0\<close> equal to minus the null slack, so that the
  left-hand side is \<open>rhs - DGG_NULL_SLACK\<close>; a cut \<open>x\<^sub>0 \<ge> 2^40\<close> and the point
  \<open>x\<^sub>0 = 2^40\<close>, which satisfies it with equality.\<close>

definition boundary_cut :: DGG_constraint_t where
  "boundary_cut = \<lparr>nz = 1, max_nz = 1, coeff = [1], index = [0], rhs = 0, sense = CHR ''G''\<rparr>"

definition boundary_data :: DGG_data_t where
  "boundary_data = \<lparr>ncol = 1, nrow = 0, lb = [- 1], ub = [1], x = [- (5902958103587057 / 2 ^ 69)],
                     rc = [0], isInteger = [False]\<rparr>"

definition tight_cut :: DGG_constraint_t where
  "tight_cut = \<lparr>nz = 1, max_nz = 1, coeff = [1], index = [0], rhs = 2 ^ 40, sense = CHR ''G''\<rparr>"

definition tight_data :: DGG_data_t where
  "tight_data = \<lparr>ncol = 1, nrow = 0, lb = [0], ub = [2 ^ 41], x = [2 ^ 40],
                  rc = [0], isInteger = [False]\<rparr>"



definition tenth :: real where
  "tenth = 3602879701896397 / 2 ^ 55"

text \<open>A split point just above one half of \<open>f = 1/2\<close>: \<open>1/4 + 2^-30\<close>. And the base
  \<open>mir_base\<close> with the right-hand side \<open>5/2\<close>, whose fraction is \<open>1/2\<close>.\<close>

definition above_quarter :: real where
  "above_quarter = 268435457 / 2 ^ 30"

definition half_base :: DGG_constraint_t where
  "half_base = \<lparr>nz = 3, max_nz = 3, coeff = [5 / 2, 5 / 4, - 1], index = [0, 1, 2],
                 rhs = 5 / 2, sense = CHR ''G''\<rparr>"

text \<open>A Snapshot with four unified indices in which \<open>x\<^sub>0\<close> is nearer to its upper
  bound; a row \<open>2 x\<^sub>0 + 3 x\<^sub>1 \<ge> 100\<close> laid out like the formulation row, with arrays of
  \<open>ncol + nrow\<close> slots and \<open>max_nz = nz + 1\<close>; and the row transformed there. Then a Snapshot
  with the bounds \<open>0 \<le> x\<^sub>0 \<le> 2^60\<close> and \<open>x\<^sub>0\<close> at its upper bound, and the constraint
  \<open>x\<^sub>0 \<ge> 1/2\<close>.\<close>

definition bounded_data :: DGG_data_t where
  "bounded_data = \<lparr>ncol = 3, nrow = 1, lb = [1, 1 / 8, 0, 0], ub = [4, 2, 5, 1],
                    x = [7 / 2, 1 / 4, 0, 0], rc = [0, 1, 0, 0],
                    isInteger = [True, False, True, False]\<rparr>"

definition form_row :: DGG_constraint_t where
  "form_row = \<lparr>nz = 2, max_nz = 3, coeff = [2, 3, 0, 0], index = [0, 1, 0, 0], rhs = 100,
                sense = CHR ''G''\<rparr>"

definition transformed_row :: DGG_constraint_t where
  "transformed_row = \<lparr>nz = 2, max_nz = 3, coeff = [- 2, 3, 0, 0], index = [0, 1, 0, 0],
                       rhs = 733 / 8, sense = CHR ''G''\<rparr>"

definition wide_data :: DGG_data_t where
  "wide_data = \<lparr>ncol = 1, nrow = 0, lb = [0], ub = [2 ^ 60], x = [2 ^ 60],
                 rc = [0], isInteger = [False]\<rparr>"

definition half_row :: DGG_constraint_t where
  "half_row = \<lparr>nz = 1, max_nz = 1, coeff = [1], index = [0], rhs = 1 / 2, sense = CHR ''G''\<rparr>"

section \<open>Loops\<close>

lemma for_loop_done: "n \<le> i \<Longrightarrow> for_loop body i n s = Inr s"
  by (simp add: for_loop.simps)

lemma for_loop_step:
  "i < n \<Longrightarrow> body i s = Inr s' \<Longrightarrow> for_loop body i n s = for_loop body (Suc i) n s'"
  by (subst for_loop.simps) simp

lemma for_loop_fail: "i < n \<Longrightarrow> body i s = Inl e \<Longrightarrow> for_loop body i n s = Inl e"
  by (subst for_loop.simps) simp

text \<open>Total correctness of a loop from an invariant that every step re-establishes.\<close>

lemma for_loop_total:
  assumes "I i s" and "i \<le> n"
    and "\<And>j t. i \<le> j \<Longrightarrow> j < n \<Longrightarrow> I j t \<Longrightarrow> \<exists>t'. body j t = Inr t' \<and> I (Suc j) t'"
  shows "\<exists>t. for_loop body i n s = Inr t \<and> I n t"
  using assms
proof (induction "n - i" arbitrary: i s)
  case 0
  then have "i = n" by simp
  with 0 show ?case by (simp add: for_loop_done)
next
  case (Suc k)
  then have lt: "i < n" by simp
  from Suc.prems(3) [of i s] lt Suc.prems(1)
  obtain s' where s': "body i s = Inr s'" "I (Suc i) s'" by auto
  have "\<exists>t. for_loop body (Suc i) n s' = Inr t \<and> I n t"
  proof (rule Suc.hyps(1))
    show "k = n - Suc i" using Suc.hyps(2) by simp
    show "I (Suc i) s'" by (rule s')
    show "Suc i \<le> n" using lt by simp
    show "\<And>j t. Suc i \<le> j \<Longrightarrow> j < n \<Longrightarrow> I j t \<Longrightarrow> \<exists>t'. body j t = Inr t' \<and> I (Suc j) t'"
      using Suc.prems(3) by simp
  qed
  then show ?case using lt s'(1) by (simp add: for_loop_step)
qed

section \<open>The left-hand side\<close>

lemma cutLHS_total:
  assumes "indices_ok d c" and "data_ok d"
  shows "\<exists>lhs. DGG_cutLHS c (x d) = Inr lhs"
proof -
  have "\<exists>t. for_loop (cutLHS_body c (x d)) 0 (nat (nz c)) 0 = Inr t \<and> True"
  proof (rule for_loop_total [where I = "\<lambda>_ _. True"])
    fix j t
    assume "j < nat (nz c)"
    with assms have "j < length (coeff c)" "j < length (index c)" "in_block (x d) (index c ! j)"
      by (auto simp: indices_ok_def data_ok_def in_block_def)
    then show "\<exists>t'. cutLHS_body c (x d) j t = Inr t' \<and> True"
      by (simp add: cutLHS_body_def)
  qed simp_all
  then show ?thesis by (simp add: DGG_cutLHS_def)
qed

lemma isConstraintViolated_total:
  "indices_ok d c \<Longrightarrow> data_ok d \<Longrightarrow> DGG_isConstraintViolated K d c = Inr 0"
  using cutLHS_total [of d c] by (auto simp: DGG_isConstraintViolated_def)

lemma cutLHS_sum:
  assumes "indices_ok d c" and "data_ok d"
  shows "DGG_cutLHS c (x d) = Inr (\<Sum>i < nat (nz c). coeff c ! i * x d ! nat (index c ! i))"
proof -
  let ?I = "\<lambda>j t. t = (\<Sum>i < j. coeff c ! i * x d ! nat (index c ! i))"
  have "\<exists>t. for_loop (cutLHS_body c (x d)) 0 (nat (nz c)) 0 = Inr t \<and> ?I (nat (nz c)) t"
  proof (rule for_loop_total [where I = ?I])
    fix j t
    assume "j < nat (nz c)" and t: "?I j t"
    with assms have "j < length (coeff c)" "j < length (index c)" "in_block (x d) (index c ! j)"
      by (auto simp: indices_ok_def data_ok_def in_block_def)
    then show "\<exists>t'. cutLHS_body c (x d) j t = Inr t' \<and> ?I (Suc j) t'"
      using t by (simp add: cutLHS_body_def)
  qed simp_all
  then show ?thesis by (simp add: DGG_cutLHS_def)
qed

lemma example_row_ok: "indices_ok example_data example_row \<and> data_ok example_data"
  by (simp add: indices_ok_def data_ok_def example_data_def example_row_def less_Suc_eq
        numeral_2_eq_2)

section \<open>The violation test that always answers 0\<close>

text \<open>
  C8: \<open>DGG_isConstraintViolated\<close> returns 0 for every Snapshot and every constraint.
  Whatever the sense and whatever the relation between the left-hand side and the
  right-hand side, a call that returns returns 0; and it does return 0 whenever the
  constraint's indices lie inside the Snapshot's arrays, so that computing the left-hand
  side reads no memory outside them.
\<close>

theorem isConstraintViolated_always_0:
  "(\<forall>r. DGG_isConstraintViolated K d c = Inr r \<longrightarrow> r = 0) \<and>
   (indices_ok d c \<and> data_ok d \<longrightarrow> DGG_isConstraintViolated K d c = Inr 0)"
  using cutLHS_sum [of d c]
  by (auto simp: DGG_isConstraintViolated_def split: sum.splits)

text \<open>At \<open>2 x\<^sub>0 + 3 x\<^sub>1 \<ge> 100\<close> and the point \<open>(7/2, 1/4)\<close> the left-hand side is
  \<open>31/4\<close>, far below the right-hand side, and the answer is still 0.\<close>

theorem isConstraintViolated_always_0_witness:
  "indices_ok example_data example_row \<and> data_ok example_data \<and>
   DGG_cutLHS example_row (x example_data) = Inr (31 / 4) \<and>
   DGG_isConstraintViolated example_K example_data example_row = Inr 0"
proof -
  have l: "DGG_cutLHS example_row (x example_data) = Inr (31 / 4)"
    by (simp add: DGG_cutLHS_def for_loop.simps cutLHS_body_def in_block_def example_data_def
          example_row_def numeral_2_eq_2)
  show ?thesis
    using example_row_ok l isConstraintViolated_always_0 [of example_K example_data example_row]
    by simp
qed

section \<open>Copying the generator\<close>

text \<open>
  C9: the copy constructor, and therefore \<open>clone\<close>, initialises only \<open>t_min_\<close>,
  \<open>t_max_\<close>, \<open>q_min_\<close> and \<open>q_max_\<close> from the source object; \<open>do_mir_\<close>, \<open>do_2mir_\<close>,
  \<open>do_tab_\<close>, \<open>do_form_\<close>, \<open>a_max_\<close> and \<open>form_nrows_\<close> are left indeterminate in the
  copy. \<open>operator=\<close> assigns those four members of the target and leaves its other
  members, and every other object, unchanged.
\<close>

theorem copy_and_assign_frame:
  "t_min (CglTwomir_copy s) = t_min s \<and> t_max (CglTwomir_copy s) = t_max s \<and>
   q_min (CglTwomir_copy s) = q_min s \<and> q_max (CglTwomir_copy s) = q_max s \<and>
   do_mir (CglTwomir_copy s) = None \<and> do_2mir (CglTwomir_copy s) = None \<and>
   do_tab (CglTwomir_copy s) = None \<and> do_form (CglTwomir_copy s) = None \<and>
   a_max (CglTwomir_copy s) = None \<and> form_nrows (CglTwomir_copy s) = None \<and>
   clone s = CglTwomir_copy s \<and>
   CglTwomir_assign st p q =
     st(p := (st p)\<lparr>t_min := t_min (st q), t_max := t_max (st q),
                     q_min := q_min (st q), q_max := q_max (st q)\<rparr>)"
  by (simp add: CglTwomir_copy_def raw_object_def clone_def CglTwomir_assign_def)

text \<open>The copy of a default-constructed generator has the default scale ranges and no
  determinate family flag: it is not equal to the original.\<close>

theorem copy_and_assign_frame_witness:
  "t_min (clone CglTwomir_default) = Some 1 \<and> do_mir CglTwomir_default = Some True \<and>
   do_mir (clone CglTwomir_default) = None \<and> clone CglTwomir_default \<noteq> CglTwomir_default"
proof -
  have "do_mir (clone CglTwomir_default) \<noteq> do_mir CglTwomir_default"
    using copy_and_assign_frame [of CglTwomir_default] by (simp add: CglTwomir_default_def)
  then have "clone CglTwomir_default \<noteq> CglTwomir_default" by auto
  then show ?thesis
    using copy_and_assign_frame [of CglTwomir_default] by (simp add: CglTwomir_default_def)
qed

section \<open>Removing a cut from the list\<close>




text \<open>The count of a list is never negative: it is 0 at first, \<open>DGG_list_addcut\<close>
  raises it, and \<open>DGG_list_delcut\<close> lowers it only after reading slot \<open>n - 1\<close>.\<close>

lemma list_count_nonneg:
  "0 \<le> list_n DGG_list_init"
  "0 \<le> list_n l \<Longrightarrow> DGG_list_addcut l p t a = Inr l' \<Longrightarrow> 0 \<le> list_n l'"
  "0 \<le> list_n l \<Longrightarrow> DGG_list_delcut (h, l) i = Inr (h', l') \<Longrightarrow> 0 \<le> list_n l'"
  by (auto simp: DGG_list_init_def DGG_list_addcut_def DGG_list_delcut_def delcut_guard_def
        in_block_def Let_def split: if_splits sum.splits)




text \<open>An index past the count but inside the block is not stopped either: on the list
  left by the deletion above, index 2 frees the constraint at address 3, which slot 0
  still points to, and the invariant is lost.\<close>

lemma delcut_past_count:
  "list_ok (example_store(1 := None))
     \<lparr>list_n = 2, list_c = [3, 2, 3], list_ctype = [1, 2, 1], list_alpha = [0, 1 / 4, 0]\<rparr> \<and>
   DGG_list_delcut (example_store(1 := None),
     \<lparr>list_n = 2, list_c = [3, 2, 3], list_ctype = [1, 2, 1], list_alpha = [0, 1 / 4, 0]\<rparr>) 2 =
     Inr (example_store(1 := None, 3 := None),
          \<lparr>list_n = 1, list_c = [3, 2, 2], list_ctype = [1, 2, 2], list_alpha = [0, 1 / 4, 1 / 4]\<rparr>) \<and>
   \<not> list_ok (example_store(1 := None, 3 := None))
          \<lparr>list_n = 1, list_c = [3, 2, 2], list_ctype = [1, 2, 2], list_alpha = [0, 1 / 4, 1 / 4]\<rparr>"
  by (simp add: list_ok_def DGG_list_delcut_def delcut_guard_def in_block_def
        DGG_freeConstraint_def example_store_def numeral_2_eq_2)

section \<open>Nicefy: sense and idempotence\<close>

text \<open>Partial correctness of a loop, with the loop index in the invariant.\<close>

lemma for_loop_partial:
  assumes "for_loop body i n s = Inr t" and "I i s" and "i \<le> n"
    and "\<And>j u u'. i \<le> j \<Longrightarrow> j < n \<Longrightarrow> I j u \<Longrightarrow> body j u = Inr u' \<Longrightarrow> I (Suc j) u'"
  shows "I n t"
  using assms
proof (induction "n - i" arbitrary: i s)
  case 0
  then show ?case by (simp add: for_loop_done)
next
  case (Suc k)
  then have lt: "i < n" by simp
  show ?case
  proof (cases "body i s")
    case (Inl e)
    with lt Suc.prems(1) show ?thesis by (simp add: for_loop_fail)
  next
    case (Inr s')
    have "I (Suc i) s'" using Suc.prems(4) [of i s s'] Suc.prems(2) lt Inr by simp
    moreover have "for_loop body (Suc i) n s' = Inr t"
      using Suc.prems(1) lt Inr by (simp add: for_loop_step)
    moreover have "k = n - Suc i" using Suc.hyps(2) by simp
    moreover have "Suc i \<le> n" using lt by simp
    moreover have "\<And>j u u'. Suc i \<le> j \<Longrightarrow> j < n \<Longrightarrow> I j u \<Longrightarrow> body j u = Inr u' \<Longrightarrow> I (Suc j) u'"
      using Suc.prems(4) by simp
    ultimately show ?thesis using Suc.hyps(1) by blast
  qed
qed

text \<open>What one iteration of each loop does.\<close>

lemma noise_body_frame:
  "nicefy_noise_body K i c = Inr c' \<Longrightarrow>
   i < length (coeff c) \<and> c' = c\<lparr>coeff := (coeff c)[i := noise_coef K (coeff c ! i)]\<rparr>"
  by (auto simp: nicefy_noise_body_def noise_coef_def split: if_splits)

lemma noise_body_ok:
  "i < length (coeff c) \<Longrightarrow>
   nicefy_noise_body K i c = Inr (c\<lparr>coeff := (coeff c)[i := noise_coef K (coeff c ! i)]\<rparr>)"
  by (auto simp: nicefy_noise_body_def noise_coef_def)

lemma nicefy_body_frame:
  assumes "nicefy_body K d i c = Inr c'"
  shows "i < length (coeff c) \<and> i < length (index c) \<and> in_block (isInteger d) (index c ! i) \<and>
     (isInteger d ! nat (index c ! i) \<longrightarrow> in_block (ub d) (index c ! i)) \<and>
     c' = c\<lparr>coeff := (coeff c)[i := nice_coef K (isInteger d ! nat (index c ! i))
                                   (ub d ! nat (index c ! i)) (coeff c ! i)],
             rhs := rhs c'\<rparr>"
  using assms
  by (auto simp: nicefy_body_def nice_coef_def Let_def split: if_splits)

lemma nicefy_body_fields:
  assumes "nicefy_body K d i c = Inr c'"
  shows "coeff c' = (coeff c)[i := nice_coef K (isInteger d ! nat (index c ! i))
                                   (ub d ! nat (index c ! i)) (coeff c ! i)]"
    and "index c' = index c" and "nz c' = nz c" and "sense c' = sense c"
    and "max_nz c' = max_nz c"
  using assms
  by (auto simp: nicefy_body_def nice_coef_def Let_def split: if_splits)

lemma nicefy_body_ok:
  assumes "i < length (coeff c)" "i < length (index c)" "in_block (isInteger d) (index c ! i)"
    "in_block (ub d) (index c ! i)"
  shows "\<exists>c'. nicefy_body K d i c = Inr c'"
  using assms by (auto simp: nicefy_body_def Let_def)


lemma noise_idem: "noise_coef K (noise_coef K v) = noise_coef K v"
  by (simp add: noise_coef_def)

lemma nice_settles:
  assumes "thresholds_ok K" and "noise_coef K v = v"
  shows "noise_coef K (nice_coef K b u v) = nice_coef K b u v \<and>
         nice_coef K b u (nice_coef K b u v) = nice_coef K b u v"
proof (cases b)
  case False
  with assms show ?thesis
    by (auto simp: nice_coef_def noise_coef_def thresholds_ok_def split: if_splits)
next
  case True
  define A where "A = DGG_NICEFY_MIN_ABSVALUE K"
  define F where "F = DGG_NICEFY_MIN_FIX K"
  define P where "P = DGG_NICEFY_MAX_PADDING K"
  have K: "0 < A" "A \<le> F" "F \<le> 1 / 2" "0 < P"
    using assms(1) by (simp_all add: thresholds_ok_def A_def F_def P_def)
  have int_fix: "noise_coef K (of_int m) = of_int m \<and> nice_coef K True u (of_int m) = of_int m" for m :: int
  proof -
    have "\<bar>real_of_int m\<bar> < A \<Longrightarrow> m = 0" using K by linarith
    then have "noise_coef K (of_int m) = of_int m"
      by (auto simp: noise_coef_def A_def)
    moreover have "nice_coef K True u (of_int m) = of_int m"
      using K by (simp add: nice_coef_def ABOV_def c_floor_def F_def P_def)
    ultimately show ?thesis by simp
  qed
  have infl_fix: "noise_coef K (of_int m + F) = of_int m + F \<and> nice_coef K True u (of_int m + F) = of_int m + F"
    for m :: int
  proof -
    have fl: "\<lfloor>real_of_int m + F\<rfloor> = m" using K by linarith
    have "\<not> \<bar>real_of_int m + F\<bar> < A"
    proof (cases "0 \<le> m")
      case True
      then have "0 \<le> real_of_int m" by simp
      then show ?thesis using K by linarith
    next
      case False
      then have "real_of_int m \<le> - 1" by linarith
      then show ?thesis using K by linarith
    qed
    then have "noise_coef K (of_int m + F) = of_int m + F"
      by (simp add: noise_coef_def A_def)
    moreover have "nice_coef K True u (of_int m + F) = of_int m + F"
      using K by (simp add: nice_coef_def ABOV_def c_floor_def fl flip: F_def)
    ultimately show ?thesis by simp
  qed
  consider (absorb) "nice_coef K True u v = c_floor v"
    | (inflate) "nice_coef K True u v = c_floor v + F"
    | (up) "nice_coef K True u v = c_ceil v"
    | (keep) "nice_coef K True u v = v" "\<not> ABOV v < F" "\<not> 1 - ABOV v < F"
    by (cases "ABOV v < F"; cases "ABOV v * u < P"; cases "1 - ABOV v < F")
      (simp_all add: nice_coef_def F_def P_def)
  then show ?thesis
  proof cases
    case absorb
    then show ?thesis using int_fix [of "\<lfloor>v\<rfloor>"] True by (simp add: c_floor_def)
  next
    case inflate
    then show ?thesis using infl_fix [of "\<lfloor>v\<rfloor>"] True by (simp add: c_floor_def)
  next
    case up
    then show ?thesis using int_fix [of "\<lceil>v\<rceil>"] True by (simp add: c_ceil_def)
  next
    case keep
    then show ?thesis using True assms(2) by (simp add: nice_coef_def F_def)
  qed
qed


lemma nicefy_body_ok2:
  assumes "i < length (coeff c)" "i < length (index c)" "in_block (isInteger d) (index c ! i)"
    and "isInteger d ! nat (index c ! i) \<or>
         (DGG_NICEFY_MIN_ABSVALUE K \<le> coeff c ! i \<and> coeff c ! i < DGG_NICEFY_MIN_FIX K)
         \<Longrightarrow> in_block (ub d) (index c ! i)"
  shows "\<exists>c'. nicefy_body K d i c = Inr c'"
  using assms by (auto simp: nicefy_body_def Let_def)

lemma noise_loop_result:
  assumes "for_loop (nicefy_noise_body K) 0 n c = Inr a"
  shows "nz a = nz c \<and> index a = index c \<and> sense a = sense c \<and>
         length (coeff a) = length (coeff c) \<and>
         (\<forall>m<n. m < length (coeff a) \<and> noise_coef K (coeff a ! m) = coeff a ! m)"
proof -
  let ?I = "\<lambda>j t. nz t = nz c \<and> index t = index c \<and> sense t = sense c \<and>
         length (coeff t) = length (coeff c) \<and>
         (\<forall>m<j. m < length (coeff t) \<and> noise_coef K (coeff t ! m) = coeff t ! m)"
  show ?thesis
  proof (rule for_loop_partial [where I = ?I, OF assms])
    fix j u u'
    assume inv: "?I j u" and step: "nicefy_noise_body K j u = Inr u'"
    from noise_body_frame [OF step]
    have j: "j < length (coeff u)"
      and u': "u' = u\<lparr>coeff := (coeff u)[j := noise_coef K (coeff u ! j)]\<rparr>" by simp_all
    show "?I (Suc j) u'"
      using inv j by (auto simp: u' nth_list_update noise_idem less_Suc_eq)
  qed simp_all
qed

lemma nicefy_loop_result:
  assumes "for_loop (nicefy_body K d) 0 n a = Inr b" and "thresholds_ok K"
    and "\<forall>m<n. m < length (coeff a) \<and> noise_coef K (coeff a ! m) = coeff a ! m"
  shows "nz b = nz a \<and> index b = index a \<and> sense b = sense a \<and>
         length (coeff b) = length (coeff a) \<and>
         (\<forall>m<n. m < length (coeff b) \<and> m < length (index b) \<and>
                settled K d (index b ! m) (coeff b ! m))"
proof -
  let ?I = "\<lambda>j t. nz t = nz a \<and> index t = index a \<and> sense t = sense a \<and>
         length (coeff t) = length (coeff a) \<and>
         (\<forall>m<j. m < length (coeff t) \<and> m < length (index t) \<and>
                settled K d (index t ! m) (coeff t ! m)) \<and>
         (\<forall>m. j \<le> m \<and> m < n \<longrightarrow> noise_coef K (coeff t ! m) = coeff t ! m)"
  have "?I n b"
  proof (rule for_loop_partial [where I = ?I, OF assms(1)])
    show "?I 0 a" using assms(3) by simp
  next
    fix j u u'
    assume jn: "j < n" and inv: "?I j u" and step: "nicefy_body K d j u = Inr u'"
    define w where "w = nice_coef K (isInteger d ! nat (index u ! j)) (ub d ! nat (index u ! j))
                          (coeff u ! j)"
    from nicefy_body_frame [OF step]
    have j: "j < length (coeff u)" "j < length (index u)"
      and blk: "in_block (isInteger d) (index u ! j)"
        "isInteger d ! nat (index u ! j) \<longrightarrow> in_block (ub d) (index u ! j)"
      by simp_all
    have nv: "noise_coef K (coeff u ! j) = coeff u ! j" using inv jn by simp
    have "settled K d (index u ! j) w"
      using blk nice_settles [OF assms(2) nv] by (simp add: settled_def w_def)
    moreover have "coeff u' = (coeff u)[j := w]" "index u' = index u" "nz u' = nz u"
      "sense u' = sense u"
      using nicefy_body_fields [OF step] by (simp_all add: w_def)
    ultimately show "?I (Suc j) u'"
      using inv j jn by (auto simp: nth_list_update less_Suc_eq)
  qed simp
  then show ?thesis by blast
qed

lemma noise_loop_fixed:
  assumes "\<forall>m<n. m < length (coeff c) \<and> noise_coef K (coeff c ! m) = coeff c ! m"
  shows "for_loop (nicefy_noise_body K) 0 n c = Inr c"
proof -
  have "\<exists>t. for_loop (nicefy_noise_body K) 0 n c = Inr t \<and> t = c"
  proof (rule for_loop_total [where I = "\<lambda>_ t. t = c"])
    fix j t
    assume "j < n" and "t = c"
    then show "\<exists>t'. nicefy_noise_body K j t = Inr t' \<and> t' = c"
      using assms noise_body_ok [of j c K] by simp
  qed simp_all
  then show ?thesis by simp
qed

lemma nicefy_body_settled:
  assumes "thresholds_ok K" and "j < length (coeff c)" and "j < length (index c)"
    and "settled K d (index c ! j) (coeff c ! j)"
  shows "\<exists>r. nicefy_body K d j c = Inr (c\<lparr>rhs := r\<rparr>)"
proof -
  let ?b = "isInteger d ! nat (index c ! j)"
  let ?u = "ub d ! nat (index c ! j)"
  let ?v = "coeff c ! j"
  have fx: "nice_coef K ?b ?u ?v = ?v" and blk: "in_block (isInteger d) (index c ! j)"
    and ublk: "?b \<longrightarrow> in_block (ub d) (index c ! j)"
    using assms(4) by (simp_all add: settled_def)
  have "\<not> (\<not> ?b \<and> DGG_NICEFY_MIN_ABSVALUE K \<le> ?v \<and> ?v < DGG_NICEFY_MIN_FIX K)"
    using fx assms(1) by (auto simp: nice_coef_def thresholds_ok_def split: if_splits)
  then obtain c' where c': "nicefy_body K d j c = Inr c'"
    using nicefy_body_ok2 [of j c d K] assms(2,3) blk ublk by blast
  from nicefy_body_frame [OF c'] fx have "c' = c\<lparr>rhs := rhs c'\<rparr>" by simp
  with c' show ?thesis by metis
qed

lemma nicefy_loop_fixed:
  assumes "thresholds_ok K"
    and "\<forall>m<n. m < length (coeff c) \<and> m < length (index c) \<and>
               settled K d (index c ! m) (coeff c ! m)"
  shows "\<exists>r. for_loop (nicefy_body K d) 0 n c = Inr (c\<lparr>rhs := r\<rparr>)"
proof -
  have "\<exists>t. for_loop (nicefy_body K d) 0 n c = Inr t \<and> (\<exists>r. t = c\<lparr>rhs := r\<rparr>)"
  proof (rule for_loop_total [where I = "\<lambda>_ t. \<exists>r. t = c\<lparr>rhs := r\<rparr>"])
    show "\<exists>r. c = c\<lparr>rhs := r\<rparr>" by (rule exI [of _ "rhs c"]) simp
  next
    fix j t
    assume jn: "j < n" and "\<exists>r. t = c\<lparr>rhs := r\<rparr>"
    then obtain r where t: "t = c\<lparr>rhs := r\<rparr>" by blast
    have "\<exists>r'. nicefy_body K d j t = Inr (t\<lparr>rhs := r'\<rparr>)"
      using assms jn by (intro nicefy_body_settled) (simp_all add: t)
    then show "\<exists>t'. nicefy_body K d j t = Inr t' \<and> (\<exists>r. t' = c\<lparr>rhs := r\<rparr>)"
      by (auto simp: t)
  qed simp
  then show ?thesis by auto
qed

lemma nicefy_total:
  assumes "sense c \<noteq> CHR ''L''" and "indices_ok d c" and "data_ok d"
  shows "\<exists>c'. DGG_nicefyConstraint K d c = Inr c'"
proof -
  let ?n = "nat (nz c)"
  let ?I = "\<lambda>(j::nat) (t::DGG_constraint_t). nz t = nz c \<and> index t = index c \<and> length (coeff t) = length (coeff c)"
  have "\<exists>a. for_loop (nicefy_noise_body K) 0 ?n c = Inr a \<and> ?I ?n a"
  proof (rule for_loop_total [where I = ?I])
    fix j t
    assume "j < ?n" and "?I j t"
    then show "\<exists>t'. nicefy_noise_body K j t = Inr t' \<and> ?I (Suc j) t'"
      using assms(2) noise_body_ok [of j t K] by (simp add: indices_ok_def)
  qed simp_all
  then obtain a where a: "for_loop (nicefy_noise_body K) 0 ?n c = Inr a" "?I ?n a" by blast
  have "\<exists>b. for_loop (nicefy_body K d) 0 ?n a = Inr b \<and> ?I ?n b"
  proof (rule for_loop_total [where I = ?I])
    show "?I 0 a" using a(2) by simp
  next
    fix j t
    assume jn: "j < ?n" and inv: "?I j t"
    then have "j < length (coeff t)" "j < length (index t)"
      "in_block (isInteger d) (index t ! j)" "in_block (ub d) (index t ! j)"
      using assms(2,3) by (auto simp: indices_ok_def data_ok_def in_block_def)
    then obtain t' where t': "nicefy_body K d j t = Inr t'"
      using nicefy_body_ok [of j t d K] by blast
    from nicefy_body_fields [OF t'] have "nz t' = nz t" "index t' = index t"
      "length (coeff t') = length (coeff t)"
      by simp_all
    with t' inv show "\<exists>t'. nicefy_body K d j t = Inr t' \<and> ?I (Suc j) t'" by simp
  qed simp
  then obtain b where b: "for_loop (nicefy_body K d) 0 ?n a = Inr b" by blast
  show ?thesis using assms(1) a b by (simp add: DGG_nicefyConstraint_def)
qed

text \<open>Nicefying the example, step by step.\<close>

lemma noisy_row_ok: "indices_ok example_data noisy_row"
  by (simp add: indices_ok_def example_data_def noisy_row_def less_Suc_eq numeral_3_eq_3)

lemma nicefy_example_noise: "for_loop (nicefy_noise_body example_K) 0 (nat (nz noisy_row)) noisy_row = Inr noisy_row"
  by (simp add: for_loop.simps nicefy_noise_body_def noisy_row_def example_K_def numeral_3_eq_3)

lemma nicefy_example_step0: "nicefy_body example_K example_data 0 noisy_row =
    Inr (noisy_row\<lparr>coeff := [3, 1 / 10 ^ 9, 5 - 1 / 10 ^ 8], rhs := 7 / 2 - 1 / 10 ^ 7\<rparr>)"
  by (simp add: nicefy_body_def in_block_def ABOV_def c_floor_def Let_def
        example_K_def example_data_def noisy_row_def)

lemma nicefy_example_step1: "nicefy_body example_K example_data (Suc 0)
     (noisy_row\<lparr>coeff := [3, 1 / 10 ^ 9, 5 - 1 / 10 ^ 8], rhs := 7 / 2 - 1 / 10 ^ 7\<rparr>) =
    Inr (noisy_row\<lparr>coeff := [3, 0, 5 - 1 / 10 ^ 8], rhs := 7 / 2 - 1 / 10 ^ 7 - 1 / 10 ^ 9\<rparr>)"
  by (simp add: nicefy_body_def in_block_def Let_def
        example_K_def example_data_def noisy_row_def)

lemma nicefy_example_step2: "nicefy_body example_K example_data (Suc (Suc 0))
     (noisy_row\<lparr>coeff := [3, 0, 5 - 1 / 10 ^ 8], rhs := 7 / 2 - 1 / 10 ^ 7 - 1 / 10 ^ 9\<rparr>) =
    Inr (noisy_row\<lparr>coeff := [3, 0, 5], rhs := 7 / 2 - 1 / 10 ^ 7 - 1 / 10 ^ 9\<rparr>)"
  by (simp add: nicefy_body_def in_block_def ABOV_def c_floor_def c_ceil_def Let_def
        example_K_def example_data_def noisy_row_def)

lemma nicefy_noisy_row: "DGG_nicefyConstraint example_K example_data noisy_row = Inr nice_row"
proof -
  let ?f = "nicefy_body example_K example_data"
  have n: "nat (nz noisy_row) = Suc (Suc (Suc 0))" by (simp add: noisy_row_def)
  have "for_loop ?f 0 (Suc (Suc (Suc 0))) noisy_row =
        for_loop ?f (Suc 0) (Suc (Suc (Suc 0)))
          (noisy_row\<lparr>coeff := [3, 1 / 10 ^ 9, 5 - 1 / 10 ^ 8], rhs := 7 / 2 - 1 / 10 ^ 7\<rparr>)"
    by (rule for_loop_step [where body = ?f]) (simp, rule nicefy_example_step0)
  also have "\<dots> = for_loop ?f (Suc (Suc 0)) (Suc (Suc (Suc 0)))
          (noisy_row\<lparr>coeff := [3, 0, 5 - 1 / 10 ^ 8], rhs := 7 / 2 - 1 / 10 ^ 7 - 1 / 10 ^ 9\<rparr>)"
    by (rule for_loop_step [where body = ?f]) (simp, rule nicefy_example_step1)
  also have "\<dots> = for_loop ?f (Suc (Suc (Suc 0))) (Suc (Suc (Suc 0)))
          (noisy_row\<lparr>coeff := [3, 0, 5], rhs := 7 / 2 - 1 / 10 ^ 7 - 1 / 10 ^ 9\<rparr>)"
    by (rule for_loop_step [where body = ?f]) (simp, rule nicefy_example_step2)
  also have "\<dots> = Inr (noisy_row\<lparr>coeff := [3, 0, 5], rhs := 7 / 2 - 1 / 10 ^ 7 - 1 / 10 ^ 9\<rparr>)"
    by (rule for_loop_done) simp
  finally have l2: "for_loop ?f 0 (nat (nz noisy_row)) noisy_row =
      Inr (noisy_row\<lparr>coeff := [3, 0, 5], rhs := 7 / 2 - 1 / 10 ^ 7 - 1 / 10 ^ 9\<rparr>)"
    unfolding n .
  have e: "noisy_row\<lparr>coeff := [3, 0, 5], rhs := 7 / 2 - 1 / 10 ^ 7 - 1 / 10 ^ 9, sense := CHR ''G''\<rparr>
      = nice_row"
    by (simp add: noisy_row_def nice_row_def)
  have s: "sense noisy_row \<noteq> CHR ''L''" by (simp add: noisy_row_def)
  show ?thesis
    unfolding DGG_nicefyConstraint_def using s nicefy_example_noise l2 e by simp
qed

text \<open>
  C7: \<open>DGG_nicefyConstraint\<close> fails with the return code 1 for every constraint whose
  sense is \<open>\<le>\<close>; whenever it succeeds, the sense of the constraint it returns is \<open>\<ge>\<close>;
  and it does succeed on every constraint of any other sense whose indices lie inside
  the Snapshot's arrays.
\<close>

theorem nicefy_sense:
  "(sense c = CHR ''L'' \<longrightarrow> DGG_nicefyConstraint K d c = Inl (Rval 1)) \<and>
   (\<forall>c'. DGG_nicefyConstraint K d c = Inr c' \<longrightarrow> sense c' = CHR ''G'') \<and>
   (sense c \<noteq> CHR ''L'' \<and> indices_ok d c \<and> data_ok d \<longrightarrow>
      (\<exists>c'. DGG_nicefyConstraint K d c = Inr c' \<and> sense c' = CHR ''G''))"
proof -
  have 1: "sense c = CHR ''L'' \<longrightarrow> DGG_nicefyConstraint K d c = Inl (Rval 1)"
    by (simp add: DGG_nicefyConstraint_def)
  have 2: "\<forall>c'. DGG_nicefyConstraint K d c = Inr c' \<longrightarrow> sense c' = CHR ''G''"
    by (auto simp: DGG_nicefyConstraint_def split: if_splits sum.splits)
  have 3: "sense c \<noteq> CHR ''L'' \<and> indices_ok d c \<and> data_ok d \<longrightarrow>
      (\<exists>c'. DGG_nicefyConstraint K d c = Inr c' \<and> sense c' = CHR ''G'')"
    using nicefy_total [of c d K] 2 by blast
  from 1 2 3 show ?thesis by blast
qed

theorem nicefy_sense_witness:
  "sense (example_row\<lparr>sense := CHR ''L''\<rparr>) = CHR ''L'' \<and>
   DGG_nicefyConstraint example_K example_data (example_row\<lparr>sense := CHR ''L''\<rparr>) = Inl (Rval 1) \<and>
   sense noisy_row \<noteq> CHR ''L'' \<and> indices_ok example_data noisy_row \<and> data_ok example_data \<and>
   DGG_nicefyConstraint example_K example_data noisy_row = Inr nice_row \<and>
   sense nice_row = CHR ''G''"
proof -
  have h: "sense (example_row\<lparr>sense := CHR ''L''\<rparr>) = CHR ''L''" "sense noisy_row \<noteq> CHR ''L''"
    by (simp_all add: noisy_row_def)
  have 1: "DGG_nicefyConstraint example_K example_data (example_row\<lparr>sense := CHR ''L''\<rparr>) = Inl (Rval 1)"
    using nicefy_sense [of "example_row\<lparr>sense := CHR ''L''\<rparr>" example_K example_data] h(1)
    by blast
  have 2: "sense nice_row = CHR ''G''"
    using nicefy_sense [of noisy_row example_K example_data] nicefy_noisy_row by blast
  show ?thesis
    using h 1 2 noisy_row_ok example_row_ok nicefy_noisy_row by blast
qed

text \<open>
  C6: for every Snapshot and every constraint that one application of
  \<open>DGG_nicefyConstraint\<close> returned (its sense is \<open>\<ge>\<close>), a second application succeeds
  and leaves every coefficient unchanged, as well as the indices, the count and the
  sense. The thresholds are parameters, taken in the order that \<open>thresholds_ok\<close> states.
\<close>

theorem nicefy_idempotent:
  assumes "thresholds_ok K" and "DGG_nicefyConstraint K d c = Inr c1"
  shows "sense c1 = CHR ''G'' \<and>
         (\<exists>c2. DGG_nicefyConstraint K d c1 = Inr c2 \<and> coeff c2 = coeff c1 \<and>
               index c2 = index c1 \<and> nz c2 = nz c1 \<and> sense c2 = sense c1)"
proof -
  from assms(2) obtain a b where
    a: "for_loop (nicefy_noise_body K) 0 (nat (nz c)) c = Inr a" and
    b: "for_loop (nicefy_body K d) 0 (nat (nz a)) a = Inr b" and
    c1: "c1 = b\<lparr>sense := CHR ''G''\<rparr>"
    by (auto simp: DGG_nicefyConstraint_def split: if_splits sum.splits)
  have na: "nz a = nz c" and
    noise: "\<forall>m<nat (nz a). m < length (coeff a) \<and> noise_coef K (coeff a ! m) = coeff a ! m"
    using noise_loop_result [OF a] by auto
  have nb: "nz b = nz a" and
    st: "\<forall>m<nat (nz a). m < length (coeff b) \<and> m < length (index b) \<and>
             settled K d (index b ! m) (coeff b ! m)"
    using nicefy_loop_result [OF b assms(1) noise] by auto
  have st1: "\<forall>m<nat (nz c1). m < length (coeff c1) \<and> m < length (index c1) \<and>
             settled K d (index c1 ! m) (coeff c1 ! m)"
    using st nb by (simp add: c1)
  then have "\<forall>m<nat (nz c1). m < length (coeff c1) \<and> noise_coef K (coeff c1 ! m) = coeff c1 ! m"
    by (simp add: settled_def)
  then have l1: "for_loop (nicefy_noise_body K) 0 (nat (nz c1)) c1 = Inr c1"
    by (rule noise_loop_fixed)
  obtain r where l2: "for_loop (nicefy_body K d) 0 (nat (nz c1)) c1 = Inr (c1\<lparr>rhs := r\<rparr>)"
    using nicefy_loop_fixed [OF assms(1) st1] by blast
  have "DGG_nicefyConstraint K d c1 = Inr (c1\<lparr>rhs := r, sense := CHR ''G''\<rparr>)"
    using l1 l2 by (simp add: DGG_nicefyConstraint_def c1)
  then show ?thesis by (simp add: c1)
qed

theorem nicefy_idempotent_witness:
  "thresholds_ok example_K \<and>
   DGG_nicefyConstraint example_K example_data noisy_row = Inr nice_row \<and>
   (\<exists>c2. DGG_nicefyConstraint example_K example_data nice_row = Inr c2 \<and>
      coeff c2 = [3, 0, 5])"
proof -
  have h: "thresholds_ok example_K" by (simp add: thresholds_ok_def example_K_def)
  have "\<exists>c2. DGG_nicefyConstraint example_K example_data nice_row = Inr c2 \<and>
      coeff c2 = coeff nice_row"
    using nicefy_idempotent [OF h nicefy_noisy_row] by blast
  moreover have "coeff nice_row = [3, 0, 5]" by (simp add: nice_row_def)
  ultimately show ?thesis using h nicefy_noisy_row by simp
qed

section \<open>Slot-wise loops\<close>

lemma length_slotwise [simp]: "length (slotwise g k xs) = length xs"
  by (simp add: slotwise_def)

lemma nth_slotwise:
  "j < length xs \<Longrightarrow> slotwise g k xs ! j = (if j < k then g j (xs ! j) else xs ! j)"
  by (simp add: slotwise_def)

lemma slotwise_0: "slotwise g 0 xs = xs"
  by (rule nth_equalityI) (simp_all add: nth_slotwise)

lemma slotwise_Suc:
  "k < length xs \<Longrightarrow> (slotwise g k xs)[k := g k (xs ! k)] = slotwise g (Suc k) xs"
  by (rule nth_equalityI) (auto simp: nth_slotwise nth_list_update less_Suc_eq)

section \<open>The cut builders\<close>

lemma DGG_MIN_min: "DGG_MIN a b = min a b"
  by (simp add: DGG_MIN_def min_def)

lemma ABOV_nonneg: "0 \<le> ABOV v"
  by (simp add: ABOV_def c_floor_def)

lemma buildMir_body_step:
  assumes "i < length (coeff base)" "i < length isint" "i < length (index base)"
    "lnz < length (coeff t)" "lnz < length (index t)"
  shows "buildMir_body isint base bht i (lnz, t) =
     Inr (Suc lnz, t\<lparr>coeff := (coeff t)[lnz := mir_coef bht (isint ! i) (coeff base ! i)],
                     index := (index t)[lnz := index base ! i]\<rparr>)"
  using assms ABOV_nonneg [of "coeff base ! i"]
  by (simp add: buildMir_body_def mir_coef_def Let_def not_less)

text \<open>A builder loop: entry \<open>j\<close> of the cut is computed from entry \<open>j\<close> of the base.\<close>

lemma builder_loop:
  assumes step: "\<And>i lnz t. i < n \<Longrightarrow> lnz < length (coeff t) \<Longrightarrow> lnz < length (index t) \<Longrightarrow>
      body i (lnz, t) = Inr (Suc lnz, t\<lparr>coeff := (coeff t)[lnz := entry i],
                                        index := (index t)[lnz := index base ! i]\<rparr>)"
    and len: "n \<le> length (coeff T)" "n \<le> length (index T)"
  shows "for_loop body 0 n (0, T) =
     Inr (n, T\<lparr>coeff := slotwise (\<lambda>m _. entry m) n (coeff T),
               index := slotwise (\<lambda>m _. index base ! m) n (index T)\<rparr>)"
proof -
  let ?C = "\<lambda>j. T\<lparr>coeff := slotwise (\<lambda>m _. entry m) j (coeff T),
                    index := slotwise (\<lambda>m _. index base ! m) j (index T)\<rparr>"
  have "\<exists>s. for_loop body 0 n (0, T) = Inr s \<and> s = (n, ?C n)"
  proof (rule for_loop_total [where I = "\<lambda>j s. s = (j, ?C j)"])
    show "(0, T) = (0, ?C 0)" by (simp add: slotwise_0)
  next
    fix j s
    assume jn: "j < n" and s: "s = (j, ?C j)"
    have "body j (j, ?C j) = Inr (Suc j, (?C j)\<lparr>coeff := (coeff (?C j))[j := entry j],
                                        index := (index (?C j))[j := index base ! j]\<rparr>)"
      using jn len by (intro step) simp_all
    also have "(?C j)\<lparr>coeff := (coeff (?C j))[j := entry j],
                     index := (index (?C j))[j := index base ! j]\<rparr> = ?C (Suc j)"
      using slotwise_Suc [of j "coeff T" "\<lambda>m _. entry m"]
        slotwise_Suc [of j "index T" "\<lambda>m _. index base ! m"] jn len
      by simp
    finally show "\<exists>t'. body j s = Inr t' \<and> t' = (Suc j, ?C (Suc j))"
      by (simp add: s)
  qed simp
  then show ?thesis by simp
qed

lemma mir_base_ok:
  "sense mir_base \<noteq> CHR ''L'' \<and> 0 < nz mir_base \<and> nat (nz mir_base) \<le> length (coeff mir_base) \<and>
   nat (nz mir_base) \<le> length (index mir_base) \<and> nat (nz mir_base) \<le> length mir_isint"
  by (simp add: mir_base_def mir_isint_def)

text \<open>
  C1: for every base constraint whose sense is not \<open>\<le>\<close>, with at least one nonzero,
  and every vector of integrality flags (the arrays holding at least \<open>nz\<close> entries),
  \<open>DGG_buildMir\<close> returns a \<open>\<ge>\<close> cut with as many entries, whose right-hand side is
  \<open>f \<cdot> ceil b\<close> for the base right-hand side \<open>b\<close> and \<open>f = b - floor b\<close>, whose
  coefficient of a continuous variable is the base coefficient when that is positive and
  0 otherwise, whose coefficient of an integer variable with base coefficient \<open>c\<close> is
  \<open>f \<cdot> floor c + min f (c - floor c)\<close>, and whose variable indices are those of the base.
\<close>

theorem buildMir_cut:
  assumes "sense base \<noteq> CHR ''L''" and "0 < nz base"
    and "nat (nz base) \<le> length (coeff base)" and "nat (nz base) \<le> length (index base)"
    and "nat (nz base) \<le> length isint"
  shows "\<exists>cut. DGG_buildMir isint base = Inr cut \<and> sense cut = CHR ''G'' \<and> nz cut = nz base \<and>
     rhs cut = (rhs base - of_int \<lfloor>rhs base\<rfloor>) * of_int \<lceil>rhs base\<rceil> \<and>
     (\<forall>i < nat (nz base).
        index cut ! i = index base ! i \<and>
        coeff cut ! i =
          (if isint ! i
           then (rhs base - of_int \<lfloor>rhs base\<rfloor>) * of_int \<lfloor>coeff base ! i\<rfloor> +
                min (rhs base - of_int \<lfloor>rhs base\<rfloor>) (coeff base ! i - of_int \<lfloor>coeff base ! i\<rfloor>)
           else if coeff base ! i > 0 then coeff base ! i else 0))"
proof -
  let ?n = "nat (nz base)"
  let ?bht = "ABOV (rhs base)"
  define T where "T = \<lparr>nz = 0, max_nz = nz base,
      coeff = malloc_block (nz base) 0, index = malloc_block (nz base) 0,
      rhs = ?bht * c_ceil (rhs base), sense = CHR ''G''\<rparr>"
  have lenT: "length (coeff T) = ?n" "length (index T) = ?n"
    by (simp_all add: T_def malloc_block_def)
  have loop: "for_loop (buildMir_body isint base ?bht) 0 ?n (0, T) =
     Inr (?n, T\<lparr>coeff := slotwise (\<lambda>m _. mir_coef ?bht (isint ! m) (coeff base ! m)) ?n (coeff T),
               index := slotwise (\<lambda>m _. index base ! m) ?n (index T)\<rparr>)"
    using assms(3-5) lenT by (intro builder_loop buildMir_body_step) simp_all
  have "DGG_buildMir isint base =
     Inr (T\<lparr>coeff := slotwise (\<lambda>m _. mir_coef ?bht (isint ! m) (coeff base ! m)) ?n (coeff T),
            index := slotwise (\<lambda>m _. index base ! m) ?n (index T), nz := int ?n\<rparr>)"
    using assms(1,2) loop
    by (simp add: DGG_buildMir_def DGG_newConstraint_def Let_def T_def)
  then show ?thesis
    using assms(2) lenT
    by (simp add: nth_slotwise mir_coef_def cont_coef_def DGG_MIN_min ABOV_def c_floor_def
          c_ceil_def T_def)
qed

text \<open>For \<open>b = 27/10\<close>: \<open>f = 7/10\<close>, right-hand side \<open>7/10 \<cdot> 3\<close>; the integer
  coefficient \<open>5/2\<close> becomes \<open>7/10 \<cdot> 2 + min (7/10) (1/2)\<close>.\<close>

theorem buildMir_cut_witness:
  "sense mir_base \<noteq> CHR ''L'' \<and> 0 < nz mir_base \<and> nat (nz mir_base) \<le> length (coeff mir_base) \<and>
   nat (nz mir_base) \<le> length (index mir_base) \<and> nat (nz mir_base) \<le> length mir_isint \<and>
   (\<exists>cut. DGG_buildMir mir_isint mir_base = Inr cut \<and> sense cut = CHR ''G'' \<and> nz cut = 3 \<and>
      rhs cut = 21 / 10 \<and>
      coeff cut ! 0 = 19 / 10 \<and> coeff cut ! 1 = 5 / 4 \<and> coeff cut ! 2 = 0 \<and>
      index cut ! 0 = 0 \<and> index cut ! 1 = 1 \<and> index cut ! 2 = 2)"
proof -
  have h: "sense mir_base \<noteq> CHR ''L''" "0 < nz mir_base"
    "nat (nz mir_base) \<le> length (coeff mir_base)"
    "nat (nz mir_base) \<le> length (index mir_base)" "nat (nz mir_base) \<le> length mir_isint"
    using mir_base_ok by simp_all
  have n: "nat (nz mir_base) = Suc (Suc (Suc 0))" by (simp add: mir_base_def)
  show ?thesis
    using h buildMir_cut [OF h]
    unfolding n All_less_Suc
    by (auto simp: mir_base_def mir_isint_def numeral_2_eq_2)
qed

section \<open>Real arithmetic and rounding to double\<close>

lemma exact_arith_simps [simp]:
  "A_add exact_arith = (+)" "A_sub exact_arith = (-)" "A_mul exact_arith = (*)"
  "A_div exact_arith = (/)" "A_floor exact_arith = c_floor" "A_ceil exact_arith = c_ceil"
  "A_fabs exact_arith = abs" "A_lt exact_arith = (<)" "A_le exact_arith = (\<le>)"
  "A_lit exact_arith = of_int"
  by (simp_all add: exact_arith_def)

text \<open>A number of the binade \<open>[2^k, 2^(k+1))\<close> is rounded at the exponent \<open>k - 52\<close>.\<close>

lemma double_round_eval:
  assumes "2 powr of_int k \<le> \<bar>v\<bar>" and "\<bar>v\<bar> < 2 powr of_int (k + 1)"
  shows "double_round v = round_at (k - 52) v"
proof -
  have pos: "0 < \<bar>v\<bar>" using assms(1) by (smt (verit) powr_gt_zero)
  then have "v \<noteq> 0" by simp
  moreover have "\<lfloor>log 2 \<bar>v\<bar>\<rfloor> = k"
    using assms pos by (simp add: floor_log_eq_powr_iff)
  ultimately show ?thesis by (simp add: double_round_def)
qed

lemma round_even_int: "round_even (of_int m) = m"
  by (simp add: round_even_def)

lemma round_at_exact:
  assumes "v = of_int m * 2 powr of_int e"
  shows "round_at e v = v"
  using assms by (simp add: round_at_def round_even_int)

lemma round_at_coarser:
  assumes "v = of_int m * 2 powr of_int j" and "e \<le> j"
  shows "round_at e v = v"
proof -
  have "(2::real) powr of_int j = 2 powr of_int (j - e) * 2 powr of_int e"
    by (simp flip: powr_add)
  also have "2 powr of_int (j - e) = (2::real) ^ nat (j - e)"
  proof -
    have "real_of_int (j - e) = real (nat (j - e))" using assms(2) by simp
    then show ?thesis by (simp only: powr_realpow zero_less_numeral)
  qed
  finally have "v = of_int (m * 2 ^ nat (j - e)) * 2 powr of_int e"
    using assms(1) by simp
  then show ?thesis by (rule round_at_exact)
qed

text \<open>A number with a significand below \<open>2^53\<close> is a double: rounding leaves it as
  it is.\<close>

lemma double_round_exact:
  assumes "v = of_int m * 2 powr of_int j" and "\<bar>m\<bar> < 2 ^ 53"
  shows "double_round v = v"
proof (cases "v = 0")
  case True
  then show ?thesis by (simp add: double_round_def)
next
  case False
  define k where "k = \<lfloor>log 2 \<bar>v\<bar>\<rfloor>"
  have pos: "0 < \<bar>v\<bar>" using False by simp
  have "2 powr of_int k \<le> \<bar>v\<bar>"
    using pos floor_log_eq_powr_iff [of "\<bar>v\<bar>" 2 k] by (simp add: k_def)
  also have "\<bar>v\<bar> = \<bar>of_int m\<bar> * 2 powr of_int j"
    using assms(1) by (simp add: abs_mult)
  also have "\<dots> < 2 ^ 53 * 2 powr of_int j"
  proof -
    have "m < 2 ^ 53" "- m < 2 ^ 53" using assms(2) by simp_all
    then have "real_of_int m < 2 ^ 53" "real_of_int (- m) < 2 ^ 53"
      by (simp_all only: of_int_less_numeral_power_cancel_iff)
    then have "\<bar>real_of_int m\<bar> < 2 ^ 53" by simp
    then show ?thesis by (simp add: mult_strict_right_mono)
  qed
  also have "\<dots> = 2 powr of_int (53 + j)"
    by (simp add: powr_add powr_realpow [symmetric])
  finally have "of_int k < (of_int (53 + j) :: real)" by simp
  then have "k - 52 \<le> j" by linarith
  then have "round_at (k - 52) v = v"
    using assms(1) by (intro round_at_coarser) auto
  then show ?thesis using False by (simp add: double_round_def k_def)
qed

lemma double_round_dyadic:
  assumes "\<bar>m\<bar> < 2 ^ 53"
  shows "double_round (of_int m / 2 ^ n) = of_int m / 2 ^ n"
    and "double_round (of_int m * 2 ^ n) = of_int m * 2 ^ n"
proof -
  have "real_of_int m / 2 ^ n = of_int m * 2 powr of_int (- int n)"
    by (simp add: powr_minus powr_realpow divide_inverse)
  then show "double_round (of_int m / 2 ^ n) = of_int m / 2 ^ n"
    using assms by (rule double_round_exact)
  have "real_of_int m * 2 ^ n = of_int m * 2 powr of_int (int n)"
    by (simp add: powr_realpow)
  then show "double_round (of_int m * 2 ^ n) = of_int m * 2 ^ n"
    using assms by (rule double_round_exact)
qed

lemmas double_tol =
  double_round_dyadic(1) [of 5902958103587057 69, simplified]
  double_round_dyadic(1) [of "- 5902958103587057" 69, simplified]

lemma double_zero: "double_round 0 = 0"
  by (simp add: double_round_def)

lemma round_at_neg: "round_at (- int n) v = of_int (round_even (v * 2 ^ n)) / 2 ^ n"
  by (simp add: round_at_def powr_minus powr_realpow divide_inverse)

lemma round_at_pos: "round_at (int n) v = of_int (round_even (v / 2 ^ n)) * 2 ^ n"
  by (simp add: round_at_def powr_realpow)

lemma double_round_mid:
  assumes "2 ^ k \<le> \<bar>v\<bar>" and "\<bar>v\<bar> < 2 * 2 ^ k" and "k \<le> 52"
  shows "double_round v = of_int (round_even (v * 2 ^ (52 - k))) / 2 ^ (52 - k)"
proof -
  have "2 powr of_int (int k) \<le> \<bar>v\<bar>" "\<bar>v\<bar> < 2 powr of_int (int k + 1)"
    using assms by (simp_all add: powr_realpow powr_add)
  then have "double_round v = round_at (int k - 52) v" by (rule double_round_eval)
  also have "int k - 52 = - int (52 - k)" using assms(3) by simp
  finally show ?thesis by (simp only: round_at_neg)
qed

lemma double_round_big:
  assumes "2 ^ k \<le> \<bar>v\<bar>" and "\<bar>v\<bar> < 2 * 2 ^ k" and "52 \<le> k"
  shows "double_round v = of_int (round_even (v / 2 ^ (k - 52))) * 2 ^ (k - 52)"
proof -
  have "2 powr of_int (int k) \<le> \<bar>v\<bar>" "\<bar>v\<bar> < 2 powr of_int (int k + 1)"
    using assms by (simp_all add: powr_realpow powr_add)
  then have "double_round v = round_at (int k - 52) v" by (rule double_round_eval)
  also have "int k - 52 = int (k - 52)" using assms(3) by simp
  finally show ?thesis by (simp only: round_at_pos)
qed

lemma double_round_small:
  assumes "1 / 2 ^ k \<le> \<bar>v\<bar>" and "\<bar>v\<bar> < 2 / 2 ^ k"
  shows "double_round v = of_int (round_even (v * 2 ^ (k + 52))) / 2 ^ (k + 52)"
proof -
  have "2 powr (1 - real k) = 2 / 2 ^ k"
    by (simp add: powr_diff powr_realpow)
  then have "2 powr of_int (- int k) \<le> \<bar>v\<bar>" "\<bar>v\<bar> < 2 powr of_int (- int k + 1)"
    using assms by (simp_all add: powr_realpow powr_minus divide_inverse)
  then have "double_round v = round_at (- int k - 52) v" by (rule double_round_eval)
  also have "- int k - 52 = - int (k + 52)" by simp
  finally show ?thesis by (simp only: round_at_neg)
qed

section \<open>The desirability filter\<close>

lemma lhs_sum_Suc:
  "lhs_sum A c xs (Suc k) = A_add A (lhs_sum A c xs k) (A_mul A (coeff c ! k) (xs ! nat (index c ! k)))"
  by (simp add: lhs_sum_def)

lemma cutLHS_m_fold:
  assumes "indices_ok d c" and "data_ok d"
  shows "DGG_cutLHS_m A c (x d) = Inr (lhs_sum A c (x d) (nat (nz c)))"
proof -
  let ?I = "\<lambda>j t. t = lhs_sum A c (x d) j"
  have "\<exists>t. for_loop (cutLHS_body_m A c (x d)) 0 (nat (nz c)) (A_lit A 0) = Inr t \<and> ?I (nat (nz c)) t"
  proof (rule for_loop_total [where I = ?I])
    show "A_lit A 0 = lhs_sum A c (x d) 0" by (simp add: lhs_sum_def)
  next
    fix j t
    assume "j < nat (nz c)" and t: "?I j t"
    with assms have "j < length (coeff c)" "j < length (index c)" "in_block (x d) (index c ! j)"
      by (auto simp: indices_ok_def data_ok_def in_block_def)
    then show "\<exists>t'. cutLHS_body_m A c (x d) j t = Inr t' \<and> ?I (Suc j) t'"
      using t by (simp add: cutLHS_body_m_def lhs_sum_Suc)
  qed simp
  then show ?thesis by (simp add: DGG_cutLHS_m_def)
qed

lemma isConstraintViolated_m_total:
  "indices_ok d c \<Longrightarrow> data_ok d \<Longrightarrow> DGG_isConstraintViolated_m A K d c = Inr 0"
  using cutLHS_m_fold [of d c A] by (simp add: DGG_isConstraintViolated_m_def)

text \<open>
  C5, amended: for every cut whose indices lie inside the Snapshot, in every machine
  arithmetic, \<open>DGG_isCutDesirable\<close> returns 0 (rejects) exactly when the nonzero count
  exceeds 500, or the sense is \<open>\<ge>\<close> and \<open>rhs - tol < lhs\<close>, or the sense is \<open>\<le>\<close> and
  \<open>lhs < rhs + tol\<close>, or the sense is \<open>=\<close> and \<open>\<bar>lhs - rhs\<bar> < tol\<close>; it returns 1 in every other
  case. Here \<open>lhs\<close> is the sum the loop of \<open>DGG_cutLHS\<close> accumulates, and \<open>rhs - tol\<close>,
  \<open>rhs + tol\<close> and \<open>lhs - rhs\<close> are results of the machine operations. So a \<open>\<ge>\<close> cut is
  rejected unless \<open>rhs - tol < lhs\<close> is false, which for numbers is \<open>lhs \<le> rhs - tol\<close>: at
  \<open>lhs = rhs - tol\<close> the cut is accepted.
\<close>

theorem isCutDesirable_rule:
  assumes "indices_ok d c" and "data_ok d"
  shows "DGG_isCutDesirable A K c d =
     Inr (if nz c > 500
            \<or> (sense c = CHR ''G'' \<and>
                A_lt A (A_sub A (rhs c) (DGG_NULL_SLACK K)) (lhs_sum A c (x d) (nat (nz c))))
            \<or> (sense c = CHR ''L'' \<and>
                A_lt A (lhs_sum A c (x d) (nat (nz c))) (A_add A (rhs c) (DGG_NULL_SLACK K)))
            \<or> (sense c = CHR ''E'' \<and>
                A_lt A (A_fabs A (A_sub A (lhs_sum A c (x d) (nat (nz c))) (rhs c))) (DGG_NULL_SLACK K))
          then 0 else 1)"
  using cutLHS_m_fold [OF assms, of A] by (simp add: DGG_isCutDesirable_def)

text \<open>In real arithmetic, with \<open>lhs = 2 \<cdot> 7/2 + 3 \<cdot> 1/4\<close>: the cut with right-hand side
  100 is violated and accepted, the one with right-hand side 5 is rejected.\<close>

theorem isCutDesirable_rule_witness:
  "indices_ok example_data example_row \<and> data_ok example_data \<and>
   lhs_sum exact_arith example_row (x example_data) (nat (nz example_row)) = 31 / 4 \<and>
   DGG_isCutDesirable exact_arith example_K example_row example_data = Inr 1 \<and>
   DGG_isCutDesirable exact_arith example_K (example_row\<lparr>rhs := 5\<rparr>) example_data = Inr 0"
proof -
  have h: "indices_ok example_data example_row" "data_ok example_data"
    using example_row_ok by simp_all
  have h': "indices_ok example_data (example_row\<lparr>rhs := 5\<rparr>)"
    using h(1) by (simp add: indices_ok_def)
  have l: "lhs_sum exact_arith c (x example_data) (nat (nz example_row)) = 31 / 4"
    if "coeff c = coeff example_row" "index c = index example_row" for c :: DGG_constraint_t
    using that by (simp add: lhs_sum_def example_row_def example_data_def numeral_2_eq_2)
  have 1: "DGG_isCutDesirable exact_arith example_K example_row example_data = Inr 1"
    using isCutDesirable_rule [OF h, of exact_arith example_K] l [of example_row]
    by (simp add: example_row_def example_K_def)
  have 2: "DGG_isCutDesirable exact_arith example_K (example_row\<lparr>rhs := 5\<rparr>) example_data = Inr 0"
    using isCutDesirable_rule [OF h' h(2), of exact_arith example_K] l [of "example_row\<lparr>rhs := 5\<rparr>"]
    by (simp add: example_row_def example_K_def)
  show ?thesis using h l [of example_row] 1 2 by simp
qed

text \<open>In double arithmetic, a \<open>\<ge>\<close> cut whose left-hand side is the double
  \<open>rhs - DGG_NULL_SLACK\<close> is accepted: the test of the code is strict.\<close>

theorem isCutDesirable_boundary_accepted:
  "sense boundary_cut = CHR ''G'' \<and>
   DGG_cutLHS_m double_arith boundary_cut (x boundary_data) =
     Inr (A_sub double_arith (rhs boundary_cut) (DGG_NULL_SLACK double_K)) \<and>
   DGG_isCutDesirable double_arith double_K boundary_cut boundary_data = Inr 1"
  using double_tol
  by (simp add: DGG_isCutDesirable_def DGG_cutLHS_m_def for_loop.simps cutLHS_body_m_def in_block_def
        boundary_cut_def boundary_data_def double_K_def double_arith_def double_zero)

text \<open>In double arithmetic \<open>2^40 - 1e-5\<close> is \<open>2^40\<close>, so a cut that the point satisfies
  with equality, \<open>lhs = rhs = 2^40\<close>, is accepted as well.\<close>

lemma tight_sub: "double_round (2 ^ 40 - 5902958103587057 / 2 ^ 69) = 2 ^ 40"
proof -
  have "double_round (2 ^ 40 - 5902958103587057 / 2 ^ 69) =
        of_int (round_even ((2 ^ 40 - 5902958103587057 / 2 ^ 69) * 2 ^ (52 - 39))) / 2 ^ (52 - 39)"
    by (rule double_round_mid) simp_all
  also have "\<dots> = 2 ^ 40"
    by (simp add: round_even_def)
  finally show ?thesis .
qed

lemma tight_accepted:
  "DGG_cutLHS_m double_arith tight_cut (x tight_data) = Inr (rhs tight_cut) \<and>
   DGG_isCutDesirable double_arith double_K tight_cut tight_data = Inr 1"
  using tight_sub double_round_dyadic(2) [of 1 40, simplified]
  by (simp add: DGG_isCutDesirable_def DGG_cutLHS_m_def for_loop.simps cutLHS_body_m_def in_block_def
        tight_cut_def tight_data_def double_K_def double_arith_def double_zero)

section \<open>Admissibility of a split point\<close>








text \<open>The conditions are those on the computed values, not on the exact ones. For the
  double nearest to \<open>1/10\<close> and \<open>f = 1/2\<close> the exact remainder is nearly \<open>1/10\<close> and the
  function is 1 in real arithmetic; in double arithmetic \<open>f / alpha\<close> rounds to 5, the
  computed remainder is 0 and the function returns 0.\<close>

lemma tenth_quotient: "double_round (1 / 2 / tenth) = 5"
proof -
  have "double_round (1 / 2 / tenth) =
        of_int (round_even (1 / 2 / tenth * 2 ^ (52 - 2))) / 2 ^ (52 - 2)"
    by (rule double_round_mid) (simp_all add: tenth_def)
  also have "\<dots> = 5"
    by (simp add: round_even_def tenth_def)
  finally show ?thesis .
qed

lemma tenth_product: "double_round (tenth * 5) = 1 / 2"
proof -
  have "double_round (tenth * 5) = of_int (round_even (tenth * 5 * 2 ^ (1 + 52))) / 2 ^ (1 + 52)"
    by (rule double_round_small) (simp_all add: tenth_def)
  also have "\<dots> = 1 / 2"
    by (simp add: round_even_def tenth_def)
  finally show ?thesis .
qed

lemma is2stepValid_tenth:
  "DGG_is2stepValid exact_arith double_K tenth (1 / 2) = 1 \<and>
   DGG_is2stepValid double_arith double_K tenth (1 / 2) = 0"
proof -
  have fl: "\<lfloor>1 / 2 / tenth\<rfloor> = 4" "\<lceil>1 / 2 / tenth\<rceil> = 5"
    by (simp_all add: tenth_def floor_eq_iff ceiling_eq_iff)
  have 1: "DGG_is2stepValid exact_arith double_K tenth (1 / 2) = 1"
    unfolding DGG_is2stepValid_def DGG_is_a_multiple_of_b_def Let_def exact_arith_simps
      c_floor_def c_ceil_def fl
    by (simp add: double_K_def tenth_def)
  have ops: "A_sub double_arith a b = double_round (a - b)"
    "A_mul double_arith a b = double_round (a * b)"
    "A_div double_arith a b = double_round (a / b)"
    "A_lt double_arith = (<)" "A_le double_arith = (\<le>)" "A_floor double_arith = c_floor"
    "A_ceil double_arith = c_ceil" "A_lit double_arith = of_int" for a b
    by (simp_all add: double_arith_def)
  have f5: "c_floor 5 = 5" by (simp add: c_floor_def)
  have m: "DGG_is_a_multiple_of_b double_arith double_K tenth (1 / 2) = 1"
    unfolding DGG_is_a_multiple_of_b_def Let_def ops tenth_quotient f5 tenth_product
    by (simp add: double_zero double_K_def)
  have 2: "DGG_is2stepValid double_arith double_K tenth (1 / 2) = 0"
    unfolding DGG_is2stepValid_def Let_def m by simp
  show ?thesis using 1 2 by simp
qed

text \<open>The divisor test is one-sided: it looks at the remainder, which is small when the
  quotient \<open>f / alpha\<close> is just above an integer. A split point just above \<open>f/2\<close>, for
  which the quotient is within \<open>2^-26\<close> of 2 from below, has the remainder \<open>f - alpha\<close> and
  is admissible, in real and in double arithmetic.\<close>

lemma above_quotient: "double_round (1 / 2 / above_quarter) = 268435455 / 2 ^ 27"
proof -
  have "double_round (1 / 2 / above_quarter) =
        of_int (round_even (1 / 2 / above_quarter * 2 ^ (52 - 0))) / 2 ^ (52 - 0)"
    by (rule double_round_mid) (simp_all add: above_quarter_def)
  also have "\<dots> = 268435455 / 2 ^ 27"
    by (simp add: round_even_def above_quarter_def)
  finally show ?thesis .
qed

lemma above_inverse: "double_round (1 / above_quarter) = 268435455 / 2 ^ 26"
proof -
  have "double_round (1 / above_quarter) =
        of_int (round_even (1 / above_quarter * 2 ^ (52 - 1))) / 2 ^ (52 - 1)"
    by (rule double_round_mid) (simp_all add: above_quarter_def)
  also have "\<dots> = 268435455 / 2 ^ 26"
    by (simp add: round_even_def above_quarter_def)
  finally show ?thesis .
qed

lemma above_remainder:
  "double_round (above_quarter * 1) = above_quarter"
  "double_round (1 / 2 - above_quarter) = 268435455 / 2 ^ 30"
  using double_round_dyadic(1) [of 268435457 30] double_round_dyadic(1) [of 268435455 30]
  by (simp_all add: above_quarter_def)

lemma is2stepValid_above_divisor:
  "2 - 1 / 2 ^ 26 < 1 / 2 / above_quarter \<and> 1 / 2 / above_quarter < 2 \<and>
   DGG_is2stepValid exact_arith double_K above_quarter (1 / 2) = 1 \<and>
   DGG_is2stepValid double_arith double_K above_quarter (1 / 2) = 1"
proof -
  have b: "2 - 1 / 2 ^ 26 < 1 / 2 / above_quarter" "1 / 2 / above_quarter < 2"
    by (simp_all add: above_quarter_def)
  have fl: "\<lfloor>1 / 2 / above_quarter\<rfloor> = 1" "\<lceil>1 / 2 / above_quarter\<rceil> = 2"
    by (simp_all add: above_quarter_def floor_eq_iff ceiling_eq_iff)
  have 1: "DGG_is2stepValid exact_arith double_K above_quarter (1 / 2) = 1"
    unfolding DGG_is2stepValid_def DGG_is_a_multiple_of_b_def Let_def exact_arith_simps
      c_floor_def c_ceil_def fl
    by (simp add: double_K_def above_quarter_def)
  have ops: "A_sub double_arith a b = double_round (a - b)"
    "A_mul double_arith a b = double_round (a * b)"
    "A_div double_arith a b = double_round (a / b)"
    "A_lt double_arith = (<)" "A_le double_arith = (\<le>)" "A_floor double_arith = c_floor"
    "A_ceil double_arith = c_ceil" "A_lit double_arith = of_int" for a b
    by (simp_all add: double_arith_def)
  have fc: "c_floor (268435455 / 2 ^ 27) = 1" "c_ceil (268435455 / 2 ^ 27) = 2"
    by (simp_all add: c_floor_def c_ceil_def floor_eq_iff ceiling_eq_iff)
  have m: "DGG_is_a_multiple_of_b double_arith double_K above_quarter (1 / 2) = 0"
    unfolding DGG_is_a_multiple_of_b_def Let_def ops above_quotient fc above_remainder
    by (simp add: double_K_def)
  have i: "A_div double_arith (A_lit double_arith 1) above_quarter = 268435455 / 2 ^ 26"
    unfolding ops using above_inverse by simp
  have a: "\<not> A_lt double_arith above_quarter (DGG_MIN_ALPHA double_K)"
    "A_lt double_arith above_quarter (1 / 2)" "A_lt double_arith (A_lit double_arith 0) above_quarter"
    unfolding ops by (simp_all add: double_K_def above_quarter_def)
  have t: "A_ceil double_arith (A_div double_arith (1 / 2) above_quarter) = 2"
    unfolding ops above_quotient fc ..
  have 2: "DGG_is2stepValid double_arith double_K above_quarter (1 / 2) = 1"
    unfolding DGG_is2stepValid_def Let_def m t i using a by (simp add: ops(4,5))
  show ?thesis using b 1 2 by simp
qed

section \<open>The two-step cut builder\<close>

lemma build2step_body_step:
  assumes "i < length (coeff base)" "i < length isint" "i < length (index base)"
    "lnz < length (coeff t)" "lnz < length (index t)"
    and "isint ! i \<Longrightarrow> \<not> A_lt A (A_sub A (coeff base ! i) (A_floor A (coeff base ! i))) (A_lit A 0)"
  shows "build2step_body A alpha isint base tau rho i (lnz, t) =
     Inr (Suc lnz, t\<lparr>coeff := (coeff t)[lnz := twostep_entry A alpha tau rho (isint ! i) (coeff base ! i)],
                     index := (index t)[lnz := index base ! i]\<rparr>)"
  using assms
  by (simp add: build2step_body_def twostep_entry_def Let_def)

text \<open>What \<open>DGG_build2step\<close> returns, by the tests of the code, in every machine
  arithmetic. The hypothesis on the integer coefficients is that the fractional part
  \<open>v - floor(v)\<close> is not negative, which holds of every finite double; otherwise the code
  ends the process.\<close>

lemma build2step_result:
  fixes A :: "'d arith" and K alpha isint base
  defines "f \<equiv> A_sub A (rhs base) (A_floor A (rhs base))"
  defines "tau \<equiv> A_ceil A (A_div A f alpha)"
  defines "rho \<equiv> A_sub A f (A_mul A alpha (A_floor A (A_div A f alpha)))"
  assumes "sense base \<noteq> CHR ''L''" and "0 < nz base"
    and "nat (nz base) \<le> length (coeff base)" and "nat (nz base) \<le> length (index base)"
    and "nat (nz base) \<le> length isint"
    and "\<forall>i < nat (nz base). isint ! i \<longrightarrow>
           \<not> A_lt A (A_sub A (coeff base ! i) (A_floor A (coeff base ! i))) (A_lit A 0)"
  shows "if A_le A f alpha \<or> A_le A alpha (A_lit A 0) \<or> A_lt A rho (DGG_MIN_RHO K)
     then DGG_build2step A K alpha isint base = Inl (Rval 1)
     else \<exists>cut. DGG_build2step A K alpha isint base = Inr cut \<and> sense cut = CHR ''G'' \<and>
        nz cut = nz base \<and> rhs cut = A_mul A (A_mul A (A_ceil A (rhs base)) tau) rho \<and>
        (\<forall>i < nat (nz base).
           index cut ! i = index base ! i \<and>
           coeff cut ! i =
             (if isint ! i
              then let c = coeff base ! i;
                       v = A_sub A c (A_floor A c);
                       k = DGG_MIN_m A (A_sub A tau (A_lit A 1)) (A_floor A (A_div A v alpha))
                   in A_add A (A_add A (A_mul A (A_mul A (A_floor A c) tau) rho) (A_mul A k rho))
                        (DGG_MIN_m A rho (A_sub A v (A_mul A k alpha)))
              else if A_lt A (A_lit A 0) (coeff base ! i) then coeff base ! i else A_lit A 0))"
proof -
  let ?n = "nat (nz base)"
  have f: "ABOV_m A (rhs base) = f" by (simp add: ABOV_m_def f_def)
  have entry: "twostep_entry A alpha tau rho b v =
      (if b
       then let c = v;
                w = A_sub A c (A_floor A c);
                k = DGG_MIN_m A (A_sub A tau (A_lit A 1)) (A_floor A (A_div A w alpha))
            in A_add A (A_add A (A_mul A (A_mul A (A_floor A c) tau) rho) (A_mul A k rho))
                 (DGG_MIN_m A rho (A_sub A w (A_mul A k alpha)))
       else if A_lt A (A_lit A 0) v then v else A_lit A 0)" for b v
    by (simp add: twostep_entry_def Let_def)
  show ?thesis
  proof (cases "A_le A f alpha \<or> A_le A alpha (A_lit A 0) \<or> A_lt A rho (DGG_MIN_RHO K)")
    case True
    then have "DGG_build2step A K alpha isint base = Inl (Rval 1)"
      using assms(4,5)
      by (auto simp: DGG_build2step_def DGG_is_a_multiple_of_b_def Let_def f
            simp flip: tau_def rho_def)
    then show ?thesis unfolding if_P [OF True] .
  next
    case False
    define T where "T = \<lparr>nz = 0, max_nz = nz base,
        coeff = malloc_block (nz base) (A_lit A 0), index = malloc_block (nz base) 0,
        rhs = A_mul A (A_mul A (A_ceil A (rhs base)) tau) rho, sense = CHR ''G''\<rparr>"
    have lenT: "length (coeff T) = ?n" "length (index T) = ?n"
      by (simp_all add: T_def malloc_block_def)
    have loop: "for_loop (build2step_body A alpha isint base tau rho) 0 ?n (0, T) =
       Inr (?n, T\<lparr>coeff := slotwise (\<lambda>m _. twostep_entry A alpha tau rho (isint ! m) (coeff base ! m)) ?n (coeff T),
                 index := slotwise (\<lambda>m _. index base ! m) ?n (index T)\<rparr>)"
      using assms(6-9) lenT by (intro builder_loop build2step_body_step) simp_all
    have "DGG_build2step A K alpha isint base =
       Inr (T\<lparr>coeff := slotwise (\<lambda>m _. twostep_entry A alpha tau rho (isint ! m) (coeff base ! m)) ?n (coeff T),
              index := slotwise (\<lambda>m _. index base ! m) ?n (index T), nz := int ?n\<rparr>)"
      using assms(4,5) False loop
      by (simp add: DGG_build2step_def DGG_newConstraint_m_def DGG_is_a_multiple_of_b_def Let_def
            T_def f flip: tau_def rho_def)
    then have "\<exists>cut. DGG_build2step A K alpha isint base = Inr cut \<and> sense cut = CHR ''G'' \<and>
        nz cut = nz base \<and> rhs cut = A_mul A (A_mul A (A_ceil A (rhs base)) tau) rho \<and>
        (\<forall>i < nat (nz base).
           index cut ! i = index base ! i \<and>
           coeff cut ! i = twostep_entry A alpha tau rho (isint ! i) (coeff base ! i))"
      using assms(5) lenT by (simp add: nth_slotwise T_def)
    then show ?thesis
      unfolding if_not_P [OF False] entry .
  qed
qed



text \<open>The conditions are those on the computed values. For \<open>b = 5/2\<close> and \<open>alpha\<close> the
  double nearest to \<open>1/10\<close>, the exact remainder of \<open>f = 1/2\<close> is nearly \<open>1/10\<close> and the
  builder returns a cut in real arithmetic; in double arithmetic \<open>f / alpha\<close> rounds to 5,
  the computed \<open>rho\<close> is 0 and the builder returns 1.\<close>

lemma build2step_tenth:
  "(\<exists>cut_c. DGG_build2step exact_arith double_K tenth mir_isint half_base = Inr cut_c) \<and>
   DGG_build2step double_arith double_K tenth mir_isint half_base = Inl (Rval 1)"
proof -
  have fl: "\<lfloor>1 / 2 / tenth\<rfloor> = 4" "\<lfloor>5 / 2 :: real\<rfloor> = 2"
    by (simp_all add: tenth_def floor_eq_iff)
  have f: "A_sub exact_arith (rhs half_base) (A_floor exact_arith (rhs half_base)) = 1 / 2"
    by (simp add: half_base_def c_floor_def fl)
  have h: "sense half_base \<noteq> CHR ''L''" "0 < nz half_base"
    "nat (nz half_base) \<le> length (coeff half_base)"
    "nat (nz half_base) \<le> length (index half_base)" "nat (nz half_base) \<le> length mir_isint"
    by (simp_all add: half_base_def mir_isint_def)
  have v: "\<forall>i < nat (nz half_base). mir_isint ! i \<longrightarrow>
           \<not> A_lt exact_arith (A_sub exact_arith (coeff half_base ! i)
                (A_floor exact_arith (coeff half_base ! i))) (A_lit exact_arith 0)"
    by (simp add: c_floor_def not_less)
  have 1: "\<exists>cut_c. DGG_build2step exact_arith double_K tenth mir_isint half_base = Inr cut_c"
    using build2step_result [OF h v, of tenth double_K]
    unfolding f
    by (auto simp: c_floor_def fl double_K_def tenth_def split: if_splits)
  have ops: "A_sub double_arith a b = double_round (a - b)"
    "A_mul double_arith a b = double_round (a * b)"
    "A_div double_arith a b = double_round (a / b)"
    "A_lt double_arith = (<)" "A_le double_arith = (\<le>)" "A_floor double_arith = c_floor"
    "A_ceil double_arith = c_ceil" "A_lit double_arith = of_int" for a b
    by (simp_all add: double_arith_def)
  have g: "ABOV_m double_arith (rhs half_base) = 1 / 2"
  proof -
    have "(5 / 2 :: real) - 2 = 1 / 2" by simp
    moreover have "double_round (1 / 2) = 1 / 2"
      using double_round_dyadic(1) [of 1 1] by simp
    ultimately show ?thesis
      unfolding ABOV_m_def ops by (simp add: half_base_def c_floor_def fl)
  qed
  have f5: "c_floor 5 = 5" by (simp add: c_floor_def)
  have m: "DGG_is_a_multiple_of_b double_arith double_K tenth (1 / 2) = 1"
    unfolding DGG_is_a_multiple_of_b_def Let_def ops tenth_quotient f5 tenth_product
    by (simp add: double_zero double_K_def)
  have 2: "DGG_build2step double_arith double_K tenth mir_isint half_base = Inl (Rval 1)"
    unfolding DGG_build2step_def Let_def g m by (simp add: half_base_def)
  show ?thesis using 1 2 by simp
qed

section \<open>Transform and untransform\<close>

lemma transform_body_step:
  assumes "i < length (index c)" "i < length (coeff c)" "i < length px" "i < length prc"
    "i < length pis" "0 \<le> index c ! i" "index c ! i < ncol d + nrow d" "data_ok d"
  shows "\<exists>px' prc' pis'. transform_body A K d i (px, prc, pis, c) =
      Inr (px', prc', pis',
           c\<lparr>coeff := (coeff c)[i := flip_sign A d c i (coeff c ! i)],
             rhs := shift_rhs A d c (rhs c) i\<rparr>) \<and>
      length px' = length px \<and> length prc' = length prc \<and> length pis' = length pis"
  using assms
  by (auto simp: transform_body_def Let_def closer_to_ub_def flip_sign_def shift_rhs_def
        in_block_def data_ok_def)

lemma unTransform_body_step:
  assumes "i < length (index c)" "i < length (coeff c)"
    "0 \<le> index c ! i" "index c ! i < ncol d + nrow d" "data_ok d"
  shows "unTransform_body A d i c =
      Inr (c\<lparr>coeff := (coeff c)[i := flip_sign A d c i (coeff c ! i)],
             rhs := unshift_rhs A d c (rhs c) i\<rparr>)"
  using assms
  by (auto simp: unTransform_body_def Let_def closer_to_ub_def flip_sign_def unshift_rhs_def
        in_block_def data_ok_def)

lemma transform_loop:
  assumes "data_ok d" and "indices_ok d c"
    and "nat (nz c) \<le> length px" "nat (nz c) \<le> length prc" "nat (nz c) \<le> length pis"
  shows "\<exists>px' prc' pis'. for_loop (transform_body A K d) 0 (nat (nz c)) (px, prc, pis, c) =
      Inr (px', prc', pis',
           c\<lparr>coeff := slotwise (flip_sign A d c) (nat (nz c)) (coeff c),
             rhs := foldl (shift_rhs A d c) (rhs c) [0..<nat (nz c)]\<rparr>)"
proof -
  let ?n = "nat (nz c)"
  let ?C = "\<lambda>j. c\<lparr>coeff := slotwise (flip_sign A d c) j (coeff c),
                    rhs := foldl (shift_rhs A d c) (rhs c) [0..<j]\<rparr>"
  let ?I = "\<lambda>j (s :: 'a list \<times> 'a list \<times> bool list \<times> 'a DGG_constraint).
      \<exists>px' prc' pis'. s = (px', prc', pis', ?C j) \<and>
        length px' = length px \<and> length prc' = length prc \<and> length pis' = length pis"
  have "\<exists>t. for_loop (transform_body A K d) 0 ?n (px, prc, pis, c) = Inr t \<and> ?I ?n t"
  proof (rule for_loop_total [where I = ?I])
    show "?I 0 (px, prc, pis, c)" by (simp add: slotwise_0)
  next
    fix j s
    assume jn: "j < ?n" and "?I j s"
    then obtain px' prc' pis' where s: "s = (px', prc', pis', ?C j)"
      and len: "length px' = length px" "length prc' = length prc" "length pis' = length pis"
      by blast
    have j: "j < length (coeff c)" "j < length (index c)"
      "0 \<le> index c ! j" "index c ! j < ncol d + nrow d"
      using assms(2) jn by (auto simp: indices_ok_def)
    have fs: "flip_sign A d (?C j) j = flip_sign A d c j"
      by (intro ext) (simp add: flip_sign_def)
    have next_c: "(?C j)\<lparr>coeff := (coeff (?C j))[j := flip_sign A d (?C j) j (coeff (?C j) ! j)],
             rhs := shift_rhs A d (?C j) (rhs (?C j)) j\<rparr> = ?C (Suc j)"
    proof -
      have "(slotwise (flip_sign A d c) j (coeff c))[j := flip_sign A d c j (coeff c ! j)] =
            slotwise (flip_sign A d c) (Suc j) (coeff c)"
        using j(1) by (rule slotwise_Suc)
      moreover have "shift_rhs A d (?C j) (foldl (shift_rhs A d c) (rhs c) [0..<j]) j =
            foldl (shift_rhs A d c) (rhs c) [0..<Suc j]"
        using j(1) by (simp add: shift_rhs_def nth_slotwise)
      ultimately show ?thesis
        unfolding fs using j(1) by (simp add: nth_slotwise)
    qed
    have "\<exists>px'' prc'' pis''. transform_body A K d j (px', prc', pis', ?C j) =
      Inr (px'', prc'', pis'',
           (?C j)\<lparr>coeff := (coeff (?C j))[j := flip_sign A d (?C j) j (coeff (?C j) ! j)],
             rhs := shift_rhs A d (?C j) (rhs (?C j)) j\<rparr>) \<and>
      length px'' = length px' \<and> length prc'' = length prc' \<and> length pis'' = length pis'"
      using j jn len assms(1,3,4,5) by (intro transform_body_step) simp_all
    then show "\<exists>t'. transform_body A K d j s = Inr t' \<and> ?I (Suc j) t'"
      unfolding next_c s using len by auto
  qed simp
  then show ?thesis by auto
qed

lemma unTransform_loop:
  assumes "data_ok d" and "indices_ok d c"
  shows "for_loop (unTransform_body A d) 0 (nat (nz c)) c =
      Inr (c\<lparr>coeff := slotwise (flip_sign A d c) (nat (nz c)) (coeff c),
             rhs := foldl (unshift_rhs A d c) (rhs c) [0..<nat (nz c)]\<rparr>)"
proof -
  let ?n = "nat (nz c)"
  let ?C = "\<lambda>j. c\<lparr>coeff := slotwise (flip_sign A d c) j (coeff c),
                    rhs := foldl (unshift_rhs A d c) (rhs c) [0..<j]\<rparr>"
  have "\<exists>t. for_loop (unTransform_body A d) 0 ?n c = Inr t \<and> t = ?C ?n"
  proof (rule for_loop_total [where I = "\<lambda>j t. t = ?C j"])
    show "c = ?C 0" by (simp add: slotwise_0)
  next
    fix j t
    assume jn: "j < ?n" and t: "t = ?C j"
    have j: "j < length (coeff c)" "j < length (index c)"
      "0 \<le> index c ! j" "index c ! j < ncol d + nrow d"
      using assms(2) jn by (auto simp: indices_ok_def)
    have fs: "flip_sign A d (?C j) j = flip_sign A d c j"
      by (intro ext) (simp add: flip_sign_def)
    have next_c: "(?C j)\<lparr>coeff := (coeff (?C j))[j := flip_sign A d (?C j) j (coeff (?C j) ! j)],
             rhs := unshift_rhs A d (?C j) (rhs (?C j)) j\<rparr> = ?C (Suc j)"
    proof -
      have "(slotwise (flip_sign A d c) j (coeff c))[j := flip_sign A d c j (coeff c ! j)] =
            slotwise (flip_sign A d c) (Suc j) (coeff c)"
        using j(1) by (rule slotwise_Suc)
      moreover have "unshift_rhs A d (?C j) (foldl (unshift_rhs A d c) (rhs c) [0..<j]) j =
            foldl (unshift_rhs A d c) (rhs c) [0..<Suc j]"
        using j(1) by (simp add: unshift_rhs_def nth_slotwise)
      ultimately show ?thesis
        unfolding fs using j(1) by (simp add: nth_slotwise)
    qed
    have "unTransform_body A d j (?C j) =
      Inr ((?C j)\<lparr>coeff := (coeff (?C j))[j := flip_sign A d (?C j) j (coeff (?C j) ! j)],
             rhs := unshift_rhs A d (?C j) (rhs (?C j)) j\<rparr>)"
      using j assms(1) by (intro unTransform_body_step) simp_all
    then show "\<exists>t'. unTransform_body A d j t = Inr t' \<and> t' = ?C (Suc j)"
      unfolding next_c t by simp
  qed simp
  then show ?thesis by simp
qed

lemma exact_shift_fold:
  "foldl (shift_rhs exact_arith e r) a [0..<j] =
     a - (\<Sum>m < j. coeff r ! m *
            (if closer_to_ub exact_arith e (index r ! m) then ub e ! nat (index r ! m)
             else lb e ! nat (index r ! m)))"
  by (induction j) (simp_all add: shift_rhs_def)

lemma exact_unshift_fold:
  assumes "\<forall>m < n. coeff r' ! m = flip_sign exact_arith e r m (coeff r ! m)"
    and "index r' = index r"
  shows "j \<le> n \<Longrightarrow> foldl (unshift_rhs exact_arith e r') a [0..<j] =
     a + (\<Sum>m < j. coeff r ! m *
            (if closer_to_ub exact_arith e (index r ! m) then ub e ! nat (index r ! m)
             else lb e ! nat (index r ! m)))"
proof (induction j)
  case 0
  then show ?case by simp
next
  case (Suc j)
  then have "coeff r' ! j = flip_sign exact_arith e r j (coeff r ! j)"
    using assms(1) by simp
  then show ?case
    using Suc assms(2) by (simp add: unshift_rhs_def flip_sign_def)
qed

text \<open>Both functions succeed, and choose the bound of each variable by the same test on
  the Snapshot.\<close>

lemma transform_then_untransform:
  fixes A :: "'d arith"
  assumes "data_ok d" and "indices_ok d c" and "nz c \<le> max_nz c"
  shows "\<exists>px prc pis c'. DGG_transformConstraint A K d c = Inr (px, prc, pis, c') \<and>
      c' = c\<lparr>coeff := slotwise (flip_sign A d c) (nat (nz c)) (coeff c),
             rhs := foldl (shift_rhs A d c) (rhs c) [0..<nat (nz c)]\<rparr> \<and>
      DGG_unTransformConstraint A d c' =
        Inr (c\<lparr>coeff := slotwise (flip_sign A d c) (nat (nz c))
                          (slotwise (flip_sign A d c) (nat (nz c)) (coeff c)),
               rhs := foldl (unshift_rhs A d c') (rhs c') [0..<nat (nz c)]\<rparr>)"
proof -
  let ?n = "nat (nz c)"
  define c' where "c' = c\<lparr>coeff := slotwise (flip_sign A d c) ?n (coeff c),
                          rhs := foldl (shift_rhs A d c) (rhs c) [0..<?n]\<rparr>"
  have len: "?n \<le> length (malloc_block (max_nz c) (A_lit A 0))"
    "?n \<le> length (malloc_block (max_nz c) False)"
    using assms(3) by (auto simp: malloc_block_def)
  obtain px prc pis where loop:
    "for_loop (transform_body A K d) 0 ?n
       (malloc_block (max_nz c) (A_lit A 0), malloc_block (max_nz c) (A_lit A 0),
        malloc_block (max_nz c) False, c) =
     Inr (px, prc, pis, c')"
    unfolding c'_def using transform_loop [OF assms(1,2) len(1) len(1) len(2), of A K] by blast
  have ok': "indices_ok d c'" using assms(2) by (simp add: indices_ok_def c'_def)
  have viol: "DGG_isConstraintViolated_m A K d c' = Inr 0"
    using isConstraintViolated_m_total [OF ok' assms(1)] .
  have tr: "DGG_transformConstraint A K d c = Inr (px, prc, pis, c')"
    by (simp add: DGG_transformConstraint_def loop viol)
  have fs: "flip_sign A d c' = flip_sign A d c"
    by (intro ext) (simp add: flip_sign_def c'_def)
  have "DGG_unTransformConstraint A d c' =
      Inr (c'\<lparr>coeff := slotwise (flip_sign A d c') (nat (nz c')) (coeff c'),
             rhs := foldl (unshift_rhs A d c') (rhs c') [0..<nat (nz c')]\<rparr>)"
    unfolding DGG_unTransformConstraint_def by (rule unTransform_loop [OF assms(1) ok'])
  also have "nat (nz c') = ?n" by (simp add: c'_def)
  also have "c'\<lparr>coeff := slotwise (flip_sign A d c') ?n (coeff c'),
             rhs := foldl (unshift_rhs A d c') (rhs c') [0..<?n]\<rparr> =
       c\<lparr>coeff := slotwise (flip_sign A d c) ?n (slotwise (flip_sign A d c) ?n (coeff c)),
         rhs := foldl (unshift_rhs A d c') (rhs c') [0..<?n]\<rparr>"
    unfolding fs by (simp add: c'_def)
  finally show ?thesis using tr c'_def by blast
qed

text \<open>
  C3, amended: for every Snapshot and every constraint whose indices in use lie in the
  unified index range, with \<open>nz \<le> max_nz\<close>, \<open>DGG_transformConstraint\<close> succeeds, and
  \<open>DGG_unTransformConstraint\<close> applied to the constraint it leaves succeeds and
  \<^item> in every machine arithmetic in which multiplying a coefficient of the constraint by
    \<open>-1\<close> twice gives it back (as for doubles), reproduces the coefficients, the indices,
    \<open>nz\<close>, \<open>max_nz\<close> and the sense exactly; nothing is said of the right-hand side;
  \<^item> in real arithmetic reproduces the whole constraint, the right-hand side included.
  The arrays of the constraint need not have \<open>max_nz\<close> slots.
\<close>

theorem transform_roundtrip:
  fixes A :: "'d arith" and d :: "'d DGG_data" and c :: "'d DGG_constraint"
    and e :: "real DGG_data" and r :: "real DGG_constraint"
  shows
   "(data_ok d \<and> indices_ok d c \<and> nz c \<le> max_nz c \<and>
     (\<forall>i < nat (nz c).
        A_mul A (A_mul A (coeff c ! i) (A_lit A (- 1))) (A_lit A (- 1)) = coeff c ! i) \<longrightarrow>
     (\<exists>px prc pis c' c''.
        DGG_transformConstraint A K d c = Inr (px, prc, pis, c') \<and>
        DGG_unTransformConstraint A d c' = Inr c'' \<and>
        coeff c'' = coeff c \<and> index c'' = index c \<and> nz c'' = nz c \<and>
        max_nz c'' = max_nz c \<and> sense c'' = sense c)) \<and>
    (data_ok e \<and> indices_ok e r \<and> nz r \<le> max_nz r \<longrightarrow>
     (\<exists>px prc pis r'.
        DGG_transformConstraint exact_arith R e r = Inr (px, prc, pis, r') \<and>
        DGG_unTransformConstraint exact_arith e r' = Inr r))"
proof (intro conjI impI)
  assume h: "data_ok d \<and> indices_ok d c \<and> nz c \<le> max_nz c \<and>
     (\<forall>i < nat (nz c).
        A_mul A (A_mul A (coeff c ! i) (A_lit A (- 1))) (A_lit A (- 1)) = coeff c ! i)"
  let ?n = "nat (nz c)"
  have len: "?n \<le> length (coeff c)" using h by (simp add: indices_ok_def)
  have "slotwise (flip_sign A d c) ?n (slotwise (flip_sign A d c) ?n (coeff c)) = coeff c"
    using h len by (intro nth_equalityI) (auto simp: nth_slotwise flip_sign_def)
  then show "\<exists>px prc pis c' c''.
        DGG_transformConstraint A K d c = Inr (px, prc, pis, c') \<and>
        DGG_unTransformConstraint A d c' = Inr c'' \<and>
        coeff c'' = coeff c \<and> index c'' = index c \<and> nz c'' = nz c \<and>
        max_nz c'' = max_nz c \<and> sense c'' = sense c"
    using transform_then_untransform [of d c A K] h by fastforce
next
  assume h: "data_ok e \<and> indices_ok e r \<and> nz r \<le> max_nz r"
  let ?n = "nat (nz r)"
  let ?t = "\<lambda>m. coeff r ! m *
            (if closer_to_ub exact_arith e (index r ! m) then ub e ! nat (index r ! m)
             else lb e ! nat (index r ! m))"
  obtain px prc pis r' where tr: "DGG_transformConstraint exact_arith R e r = Inr (px, prc, pis, r')"
    and r': "r' = r\<lparr>coeff := slotwise (flip_sign exact_arith e r) ?n (coeff r),
             rhs := foldl (shift_rhs exact_arith e r) (rhs r) [0..<?n]\<rparr>"
    and un: "DGG_unTransformConstraint exact_arith e r' =
        Inr (r\<lparr>coeff := slotwise (flip_sign exact_arith e r) ?n
                          (slotwise (flip_sign exact_arith e r) ?n (coeff r)),
               rhs := foldl (unshift_rhs exact_arith e r') (rhs r') [0..<?n]\<rparr>)"
    using transform_then_untransform [of e r exact_arith R] h by blast
  have len: "?n \<le> length (coeff r)" using h by (simp add: indices_ok_def)
  have co: "slotwise (flip_sign exact_arith e r) ?n
              (slotwise (flip_sign exact_arith e r) ?n (coeff r)) = coeff r"
    by (intro nth_equalityI) (auto simp: nth_slotwise flip_sign_def)
  have "\<forall>m < ?n. coeff r' ! m = flip_sign exact_arith e r m (coeff r ! m)"
    using len by (simp add: r' nth_slotwise)
  moreover have "index r' = index r" by (simp add: r')
  ultimately have unsh: "foldl (unshift_rhs exact_arith e r') (rhs r') [0..<?n] =
      rhs r' + (\<Sum>m < ?n. ?t m)"
    by (intro exact_unshift_fold [where n = ?n]) simp_all
  have sh: "rhs r' = rhs r - (\<Sum>m < ?n. ?t m)"
    by (simp add: r' exact_shift_fold)
  have rh: "foldl (unshift_rhs exact_arith e r') (rhs r') [0..<?n] = rhs r"
    unfolding unsh using sh by simp
  have "DGG_unTransformConstraint exact_arith e r' = Inr r"
    unfolding un co rh by simp
  then show "\<exists>px prc pis r'.
        DGG_transformConstraint exact_arith R e r = Inr (px, prc, pis, r') \<and>
        DGG_unTransformConstraint exact_arith e r' = Inr r"
    using tr by blast
qed

text \<open>With \<open>x\<^sub>0 = 7/2\<close> in \<open>[1, 4]\<close> the first variable is complemented
  (\<open>2 x\<^sub>0\<close> becomes \<open>- 2 x\<^sub>0'\<close>, the right-hand side loses \<open>2 \<cdot> 4\<close>); the second is
  shifted by its lower bound \<open>1/8\<close>.\<close>

lemma bounded_row_ok:
  "data_ok bounded_data \<and> indices_ok bounded_data form_row \<and> nz form_row \<le> max_nz form_row"
  by (simp add: data_ok_def indices_ok_def bounded_data_def form_row_def
        less_Suc_eq numeral_2_eq_2)

lemma transform_example:
  "DGG_transformConstraint exact_arith example_K bounded_data form_row =
     Inr ([1 / 2, 1 / 8, 0], [0, 1, 0], [True, False, False], transformed_row)"
proof -
  let ?f = "transform_body exact_arith example_K bounded_data"
  have n: "nat (nz form_row) = Suc (Suc 0)" by (simp add: form_row_def)
  have m: "malloc_block (max_nz form_row) (A_lit exact_arith 0) = [0, 0, 0]"
    "malloc_block (max_nz form_row) False = [False, False, False]"
    by (simp_all add: malloc_block_def form_row_def numeral_3_eq_3)
  have "for_loop ?f 0 (Suc (Suc 0)) ([0, 0, 0], [0, 0, 0], [False, False, False], form_row) =
        for_loop ?f (Suc 0) (Suc (Suc 0))
          ([1 / 2, 0, 0], [0, 0, 0], [True, False, False],
           form_row\<lparr>coeff := [- 2, 3, 0, 0], rhs := 92\<rparr>)"
    by (rule for_loop_step [where body = ?f])
      (simp_all add: transform_body_def in_block_def Let_def example_K_def bounded_data_def
        form_row_def)
  also have "\<dots> = for_loop ?f (Suc (Suc 0)) (Suc (Suc 0))
          ([1 / 2, 1 / 8, 0], [0, 1, 0], [True, False, False],
           form_row\<lparr>coeff := [- 2, 3, 0, 0], rhs := 733 / 8\<rparr>)"
    by (rule for_loop_step [where body = ?f])
      (simp_all add: transform_body_def in_block_def Let_def example_K_def bounded_data_def
        form_row_def)
  also have "\<dots> = Inr ([1 / 2, 1 / 8, 0], [0, 1, 0], [True, False, False],
           form_row\<lparr>coeff := [- 2, 3, 0, 0], rhs := 733 / 8\<rparr>)"
    by (rule for_loop_done) simp
  finally have loop: "for_loop ?f 0 (nat (nz form_row))
      (malloc_block (max_nz form_row) (A_lit exact_arith 0),
       malloc_block (max_nz form_row) (A_lit exact_arith 0),
       malloc_block (max_nz form_row) False, form_row) =
      Inr ([1 / 2, 1 / 8, 0], [0, 1, 0], [True, False, False], transformed_row)"
    unfolding n m by (simp add: form_row_def transformed_row_def)
  have "indices_ok bounded_data transformed_row"
    by (simp add: indices_ok_def bounded_data_def transformed_row_def less_Suc_eq numeral_2_eq_2)
  then have "DGG_isConstraintViolated_m exact_arith example_K bounded_data transformed_row = Inr 0"
    using bounded_row_ok by (simp add: isConstraintViolated_m_total)
  then show ?thesis unfolding DGG_transformConstraint_def loop by simp
qed

theorem transform_roundtrip_witness:
  "data_ok bounded_data \<and> indices_ok bounded_data form_row \<and>
   nz form_row \<le> max_nz form_row \<and>
   A_mul exact_arith (A_mul exact_arith (coeff form_row ! 0) (A_lit exact_arith (- 1)))
     (A_lit exact_arith (- 1)) = coeff form_row ! 0 \<and>
   A_mul exact_arith (A_mul exact_arith (coeff form_row ! 1) (A_lit exact_arith (- 1)))
     (A_lit exact_arith (- 1)) = coeff form_row ! 1 \<and>
   DGG_transformConstraint exact_arith example_K bounded_data form_row =
     Inr ([1 / 2, 1 / 8, 0], [0, 1, 0], [True, False, False], transformed_row) \<and>
   DGG_unTransformConstraint exact_arith bounded_data transformed_row = Inr form_row"
proof -
  have h: "data_ok bounded_data \<and> indices_ok bounded_data form_row \<and>
      nz form_row \<le> max_nz form_row"
    using bounded_row_ok .
  have g: "\<forall>i < nat (nz form_row).
      A_mul exact_arith (A_mul exact_arith (coeff form_row ! i) (A_lit exact_arith (- 1)))
        (A_lit exact_arith (- 1)) = coeff form_row ! i"
    by simp
  have "DGG_unTransformConstraint exact_arith bounded_data transformed_row = Inr form_row"
    using h g transform_example
      transform_roundtrip [of bounded_data form_row exact_arith example_K bounded_data
        form_row example_K]
    by auto
  moreover have "A_mul exact_arith (A_mul exact_arith v (A_lit exact_arith (- 1)))
     (A_lit exact_arith (- 1)) = v" for v
    by simp
  ultimately show ?thesis using h transform_example by blast
qed

text \<open>In double arithmetic the right-hand side is not reproduced, and not within a
  tolerance either. For \<open>x\<^sub>0 \<ge> 1/2\<close> with \<open>0 \<le> x\<^sub>0 \<le> 2^60\<close> and \<open>x\<^sub>0\<close> at its upper bound, the
  transform computes \<open>1/2 - 2^60\<close>, which rounds to \<open>- 2^60\<close>, and the inverse computes
  \<open>- 2^60 - (- 2^60)\<close>: the right-hand side \<open>1/2\<close> comes back as 0.\<close>

lemma wide_rounding:
  "double_round (2 ^ 60) = 2 ^ 60" "double_round (2 ^ 59) = 2 ^ 59"
  "double_round (- (2 ^ 60)) = - (2 ^ 60)" "double_round 1 = 1" "double_round (- 1) = - 1"
  using double_round_dyadic(2) [of 1 60] double_round_dyadic(2) [of 1 59]
    double_round_dyadic(2) [of "- 1" 60] double_round_dyadic(2) [of 1 0]
    double_round_dyadic(2) [of "- 1" 0]
  by simp_all

lemma wide_sub: "double_round (1 / 2 - 2 ^ 60) = - (2 ^ 60)"
proof -
  have "double_round (1 / 2 - 2 ^ 60) =
        of_int (round_even ((1 / 2 - 2 ^ 60) / 2 ^ (59 - 52))) * 2 ^ (59 - 52)"
    by (rule double_round_big) simp_all
  also have "\<dots> = - (2 ^ 60)"
    by (simp add: round_even_def)
  finally show ?thesis .
qed

theorem transform_roundtrip_loses_rhs:
  "data_ok wide_data \<and> indices_ok wide_data half_row \<and> nz half_row \<le> max_nz half_row \<and>
   DGG_transformConstraint double_arith double_K wide_data half_row =
     Inr ([0], [0], [False], half_row\<lparr>coeff := [- 1], rhs := - (2 ^ 60)\<rparr>) \<and>
   DGG_unTransformConstraint double_arith wide_data (half_row\<lparr>coeff := [- 1], rhs := - (2 ^ 60)\<rparr>) =
     Inr (half_row\<lparr>rhs := 0\<rparr>) \<and>
   rhs half_row = 1 / 2"
proof -
  let ?c' = "half_row\<lparr>coeff := [- 1], rhs := - (2 ^ 60)\<rparr>"
  have ok: "data_ok wide_data" "indices_ok wide_data half_row" "nz half_row \<le> max_nz half_row"
    "indices_ok wide_data ?c'"
    by (simp_all add: data_ok_def indices_ok_def wide_data_def half_row_def)
  have ops: "A_sub double_arith a b = double_round (a - b)"
    "A_add double_arith a b = double_round (a + b)"
    "A_mul double_arith a b = double_round (a * b)"
    "A_div double_arith a b = double_round (a / b)"
    "A_lt double_arith = (<)" "A_le double_arith = (\<le>)" "A_fabs double_arith = abs"
    "A_lit double_arith = of_int" for a b
    by (simp_all add: double_arith_def)
  have half: "A_div double_arith (A_sub double_arith (2 ^ 60) 0) (A_lit double_arith 2) = 2 ^ 59"
  proof -
    have "(2::real) ^ 60 / 2 = 2 ^ 59" by simp
    then show ?thesis unfolding ops by (simp only: diff_zero wide_rounding of_int_numeral)
  qed
  have near: "A_sub double_arith (2 ^ 60) (2 ^ 60) = 0"
    unfolding ops by (simp add: double_zero)
  have sh: "A_sub double_arith (1 / 2) (A_mul double_arith 1 (2 ^ 60)) = - (2 ^ 60)"
    unfolding ops by (simp only: mult_1 wide_rounding wide_sub)
  have fl: "A_mul double_arith 1 (A_lit double_arith (- 1)) = - 1"
    "A_mul double_arith (- 1) (A_lit double_arith (- 1)) = 1"
    unfolding ops by (simp_all add: wide_rounding)
  have un: "A_sub double_arith (- (2 ^ 60)) (A_mul double_arith (- 1) (2 ^ 60)) = 0"
  proof -
    have "- ((2::real) ^ 60) - - (2 ^ 60) = 0" by simp
    then show ?thesis
      unfolding ops by (simp only: mult_minus1 wide_rounding double_zero)
  qed
  have th: "A_le double_arith (A_fabs double_arith 0) (DGG_BOUND_THRESH double_K)"
    by (simp add: ops double_K_def)
  have step: "transform_body double_arith double_K wide_data 0 ([0], [0], [False], half_row) =
      Inr ([0], [0], [False], ?c')"
    using half near sh fl(1) th
    by (simp add: transform_body_def in_block_def Let_def wide_data_def half_row_def ops(5-8))
  have m: "malloc_block (max_nz half_row) (A_lit double_arith 0) = [0]"
    "malloc_block (max_nz half_row) False = [False]"
    by (simp_all add: malloc_block_def half_row_def ops)
  have "for_loop (transform_body double_arith double_K wide_data) 0 (Suc 0)
          ([0], [0], [False], half_row) =
        for_loop (transform_body double_arith double_K wide_data) (Suc 0) (Suc 0)
          ([0], [0], [False], ?c')"
    by (rule for_loop_step [where body = "transform_body double_arith double_K wide_data"], simp,
        rule step)
  also have "\<dots> = Inr ([0], [0], [False], ?c')"
    by (rule for_loop_done) simp
  finally have loop: "for_loop (transform_body double_arith double_K wide_data) 0 (nat (nz half_row))
      (malloc_block (max_nz half_row) (A_lit double_arith 0),
       malloc_block (max_nz half_row) (A_lit double_arith 0),
       malloc_block (max_nz half_row) False, half_row) = Inr ([0], [0], [False], ?c')"
    unfolding m by (simp add: half_row_def)
  have viol: "DGG_isConstraintViolated_m double_arith double_K wide_data ?c' = Inr 0"
    using ok(4,1) by (rule isConstraintViolated_m_total)
  have tr: "DGG_transformConstraint double_arith double_K wide_data half_row =
     Inr ([0], [0], [False], ?c')"
    unfolding DGG_transformConstraint_def loop using viol by simp
  have ustep: "unTransform_body double_arith wide_data 0 ?c' = Inr (half_row\<lparr>rhs := 0\<rparr>)"
    using half near un fl(2)
    by (simp add: unTransform_body_def in_block_def Let_def wide_data_def half_row_def ops(5-8))
  have "for_loop (unTransform_body double_arith wide_data) 0 (Suc 0) ?c' =
        for_loop (unTransform_body double_arith wide_data) (Suc 0) (Suc 0) (half_row\<lparr>rhs := 0\<rparr>)"
    by (rule for_loop_step [where body = "unTransform_body double_arith wide_data"], simp,
        rule ustep)
  also have "\<dots> = Inr (half_row\<lparr>rhs := 0\<rparr>)"
    by (rule for_loop_done) simp
  finally have ut: "DGG_unTransformConstraint double_arith wide_data ?c' = Inr (half_row\<lparr>rhs := 0\<rparr>)"
    by (simp add: DGG_unTransformConstraint_def half_row_def)
  show ?thesis using ok(1-3) tr ut by (simp add: half_row_def)
qed

end
